theory Spec2Isabelle
  imports Complex_Main "HOL-Library.AList"
begin

section \<open>Text primitives of the host language\<close>

text \<open>
  The script works on JavaScript strings. They are modelled as HOL strings restricted to
  ASCII text. The builtins the script calls (\<open>trim\<close>, \<open>toUpperCase\<close>, \<open>parseInt\<close> with
  radix 10, \<open>String\<close>) are written out for that alphabet. Numbers read by \<open>parseInt\<close>
  are unbounded integers: the rounding of doubles beyond \<open>2^53\<close> is outside the model.
\<close>

definition is_space :: "char \<Rightarrow> bool" where
  "is_space c = (c \<in> set [CHR '' '', CHR 0x09, CHR 0x0A, CHR 0x0B, CHR 0x0C, CHR 0x0D])"

definition is_digit :: "char \<Rightarrow> bool" where
  "is_digit c = (c \<in> set ''0123456789'')"

definition is_word :: "char \<Rightarrow> bool" where
  "is_word c = (c \<in> set ''abcdefghijklmnopqrstuvwxyzABCDEFGHIJKLMNOPQRSTUVWXYZ0123456789_'')"

definition digit_val :: "char \<Rightarrow> nat" where
  "digit_val c =
     (case map_of (zip ''0123456789'' [0, 1, 2, 3, 4, 5, 6, 7, 8, 9]) c of
        Some d \<Rightarrow> d | None \<Rightarrow> 0)"

definition digits_val :: "string \<Rightarrow> nat" where
  "digits_val ds = foldl (\<lambda>a c. 10 * a + digit_val c) 0 ds"

definition to_upper :: "char \<Rightarrow> char" where
  "to_upper c =
     (case map_of (zip ''abcdefghijklmnopqrstuvwxyz'' ''ABCDEFGHIJKLMNOPQRSTUVWXYZ'') c of
        Some u \<Rightarrow> u | None \<Rightarrow> c)"

definition toUpperCase :: "string \<Rightarrow> string" where
  "toUpperCase s = map to_upper s"

definition trim :: "string \<Rightarrow> string" where
  "trim s = rev (dropWhile is_space (rev (dropWhile is_space s)))"

text \<open>
  \<open>parseInt(s, 10)\<close>: leading white space is skipped, one sign is read, then the longest
  run of decimal digits; whatever follows is ignored. With no digit the result is NaN,
  here \<open>None\<close>.
\<close>

definition parseInt :: "string \<Rightarrow> int option" where
  "parseInt s =
     (let t = dropWhile is_space s;
          neg = (t \<noteq> [] \<and> hd t = CHR ''-'');
          u = (if t \<noteq> [] \<and> (hd t = CHR ''-'' \<or> hd t = CHR ''+'') then tl t else t);
          ds = takeWhile is_digit u
      in if ds = [] then None
         else Some (if neg then - int (digits_val ds) else int (digits_val ds)))"

text \<open>The decimal numeral of a natural number, as \<open>String(n)\<close> prints it.\<close>

fun digits_of :: "nat \<Rightarrow> string" where
  "digits_of n =
     (if n < 10 then [''0123456789'' ! n]
      else digits_of (n div 10) @ [''0123456789'' ! (n mod 10)])"

declare digits_of.simps [simp del]

section \<open>Numbers of the host language\<close>

text \<open>
  The marks are JavaScript Numbers: IEEE 754 double precision values. A finite double is
  given by the rational it denotes; the two zeros are not told apart (the page prints
  both as 0). \<open>fl\<close> is the rounding every arithmetic operation ends with: to the nearest
  double, a tie going to the even significand, with gradual underflow below \<open>2^-1022\<close>
  and overflow to infinity from \<open>2^1024\<close> on. \<open>bits n\<close> is the length of \<open>n\<close> in binary, and
  \<open>ilog2 a\<close> is the exponent \<open>e\<close> with \<open>2^e \<le> a < 2^(e+1)\<close> of a positive rational.
  The type has a value for every rational, the doubles among them; what is proved for
  all of its values holds for the doubles, and the examples use doubles only.
\<close>

datatype number = Fin rat | PInf | NInf | NaN

fun bits :: "nat \<Rightarrow> nat" where
  "bits n = (if n = 0 then 0 else Suc (bits (n div 2)))"

declare bits.simps [simp del]

definition pow2 :: "int \<Rightarrow> rat" where
  "pow2 e = (if 0 \<le> e then 2 ^ nat e else 1 / 2 ^ nat (- e))"

definition ilog2 :: "rat \<Rightarrow> int" where
  "ilog2 a = (if 1 \<le> a then int (bits (nat \<lfloor>a\<rfloor>)) - 1
              else - int (bits (nat (\<lceil>1 / a\<rceil> - 1))))"

definition round_even :: "rat \<Rightarrow> int" where
  "round_even q =
     (let n = \<lfloor>q\<rfloor>; r = q - of_int n
      in if r < 1 / 2 then n else if 1 / 2 < r then n + 1 else if even n then n else n + 1)"

definition fl :: "rat \<Rightarrow> number" where
  "fl x =
     (if x = 0 then Fin 0
      else
        let a = \<bar>x\<bar>;
            e = max (ilog2 a) (- 1022);
            ulp = pow2 (e - 52);
            m = of_int (round_even (a / ulp)) * ulp
        in if pow2 1024 \<le> m then (if 0 < x then PInf else NInf)
           else Fin (if 0 < x then m else - m))"

text \<open>
  The operators the script applies to marks: \<open>*\<close>, \<open>+\<close>, unary \<open>-\<close>, the test \<open>> 0\<close>, and
  the truth value that \<open>||\<close> looks at (0 and NaN are falsy).
\<close>

fun num_mul :: "number \<Rightarrow> number \<Rightarrow> number" where
  "num_mul (Fin a) (Fin b) = fl (a * b)"
| "num_mul NaN y = NaN"
| "num_mul x NaN = NaN"
| "num_mul PInf (Fin b) = (if b = 0 then NaN else if 0 < b then PInf else NInf)"
| "num_mul NInf (Fin b) = (if b = 0 then NaN else if 0 < b then NInf else PInf)"
| "num_mul (Fin a) PInf = (if a = 0 then NaN else if 0 < a then PInf else NInf)"
| "num_mul (Fin a) NInf = (if a = 0 then NaN else if 0 < a then NInf else PInf)"
| "num_mul PInf PInf = PInf"
| "num_mul NInf NInf = PInf"
| "num_mul PInf NInf = NInf"
| "num_mul NInf PInf = NInf"

fun num_add :: "number \<Rightarrow> number \<Rightarrow> number" where
  "num_add (Fin a) (Fin b) = fl (a + b)"
| "num_add NaN y = NaN"
| "num_add x NaN = NaN"
| "num_add PInf NInf = NaN"
| "num_add NInf PInf = NaN"
| "num_add PInf y = PInf"
| "num_add x PInf = PInf"
| "num_add NInf y = NInf"
| "num_add x NInf = NInf"

fun num_neg :: "number \<Rightarrow> number" where
  "num_neg (Fin a) = Fin (- a)"
| "num_neg PInf = NInf"
| "num_neg NInf = PInf"
| "num_neg NaN = NaN"

fun num_positive :: "number \<Rightarrow> bool" where
  "num_positive (Fin a) = (0 < a)"
| "num_positive PInf = True"
| "num_positive NInf = False"
| "num_positive NaN = False"

fun num_falsy :: "number \<Rightarrow> bool" where
  "num_falsy (Fin a) = (a = 0)"
| "num_falsy NaN = True"
| "num_falsy x = False"

section \<open>Application state\<close>

text \<open>
  The module variables of \<open>script.js\<close> (lines 75 to 81) and the parts of the document the
  handlers read or write make up one record. A marks field holds what
  \<open>value ? parseFloat(value) : null\<close> makes of its text: \<open>None\<close> for the empty text, else the
  Number that \<open>parseFloat\<close> reads, \<open>NaN\<close> when it finds none. \<open>timerRunning\<close> says
  whether \<open>timerInterval\<close> holds a live interval. An element that is hidden shows
  \<open>None\<close>. Styling, scrolling, button captions and the PDF export are left out.
\<close>

datatype row_class = Correct | Incorrect

text \<open>
  One question row of the sheet: the value of the checked radio button of the group,
  whether the radios are disabled, whether the row's Clear button is hidden, and which of
  the classes \<open>correct\<close> / \<open>incorrect\<close> the row carries (an unanswered row carries
  neither).
\<close>

record row =
  checked :: "string option"
  disabled :: bool
  clearHidden :: bool
  rowClass :: "row_class option"

datatype key_source = Excel | Pdf

text \<open>
  The messages \<open>showError\<close> displays, named after the error classes of the
  specification, with the numbers the message text interpolates:
  \<open>LengthMismatch actual expected\<close> is "Manual key has actual answers, but there are
  expected questions.", \<open>KeyCardinalityMismatch actual expected\<close> is the same for
  "Uploaded key".
\<close>

datatype message =
    ConfigInvalid
  | LengthMismatch nat nat
  | KeyCardinalityMismatch nat nat
  | NoValidEntries key_source

datatype status = AnswersLoaded nat | CanSaveSheet

datatype score = Marks number number | RawCount nat nat

record grade_result =
  correctCount :: nat
  incorrectCount :: nat
  unansweredCount :: nat
  scoreShown :: score

datatype onclick = NoOnclick | OnclickCheck | OnclickSavePdf

type_synonym answer_key = "(int \<times> string) list"

record state =
  totalQuestions :: nat
  correctMarks :: "number option"
  wrongMarks :: "number option"
  answerKey :: answer_key
  timerRunning :: bool
  startTime :: int
  isGraded :: bool
  questionCountInput :: string
  correctMarksInput :: "number option"
  wrongMarksInput :: "number option"
  manualKeyInput :: string
  rows :: "row list"
  sheetHidden :: bool
  configError :: "message option"
  checkError :: "message option"
  statusMessage :: "status option"
  results :: "grade_result option"
  timeTaken :: "int option"
  confirmModal :: bool
  checkBtnOnclick :: onclick

text \<open>
  The answer key object \<open>{1: 'A', 2: 'C'}\<close> is an association list read through
  \<open>map_of\<close> and written through \<open>AList.update\<close>; \<open>Object.keys(answerKey).length\<close> is the
  number of distinct keys.
\<close>

definition key_count :: "answer_key \<Rightarrow> nat" where
  "key_count k = length (remdups (map fst k))"

text \<open>
  The state when the script has been loaded: the variables as lines 75 to 81 initialise
  them; the page, which is not part of the script, is taken with an empty sheet, blank
  fields and nothing displayed.
\<close>

definition init :: state where
  "init = \<lparr> totalQuestions = 0, correctMarks = None, wrongMarks = None, answerKey = [],
            timerRunning = False, startTime = 0, isGraded = False,
            questionCountInput = [], correctMarksInput = None, wrongMarksInput = None,
            manualKeyInput = [], rows = [], sheetHidden = True,
            configError = None, checkError = None, statusMessage = None, results = None,
            timeTaken = None, confirmModal = False, checkBtnOnclick = NoOnclick \<rparr>"

section \<open>Timer\<close>

text \<open>
  \<open>Date.now()\<close> is the argument \<open>now\<close>, in milliseconds. \<open>stopTimer\<close> writes the elapsed
  time into the "Time Taken" element; the model keeps the milliseconds that
  \<open>formatTime\<close> is applied to.
\<close>

definition startTimer :: "int \<Rightarrow> state \<Rightarrow> state" where
  "startTimer now s = s\<lparr>timerRunning := True, startTime := now\<rparr>"

definition stopTimer :: "int \<Rightarrow> state \<Rightarrow> state" where
  "stopTimer now s = s\<lparr>timerRunning := False, timeTaken := Some (now - startTime s)\<rparr>"

section \<open>Generating and resetting the sheet\<close>

definition createQuestionRow :: row where
  "createQuestionRow = \<lparr> checked = None, disabled = False, clearHidden = False, rowClass = None \<rparr>"

definition resetOMRState :: "state \<Rightarrow> state" where
  "resetOMRState s =
     s\<lparr> answerKey := [], manualKeyInput := [], results := None, checkError := None,
        statusMessage := None, isGraded := False, checkBtnOnclick := OnclickCheck,
        rows := map (\<lambda>r. r\<lparr>rowClass := None, disabled := False, checked := None,
                            clearHidden := False\<rparr>) (rows s) \<rparr>"

definition generateOMRSheet :: "int \<Rightarrow> state \<Rightarrow> state" where
  "generateOMRSheet now s =
     (case parseInt (questionCountInput s) of
        None \<Rightarrow> s\<lparr>configError := Some ConfigInvalid\<rparr>
      | Some count \<Rightarrow>
          if count < 1 \<or> count > 200 then s\<lparr>configError := Some ConfigInvalid\<rparr>
          else
            startTimer now (resetOMRState
              (s\<lparr> configError := None,
                  totalQuestions := nat count,
                  correctMarks := correctMarksInput s,
                  wrongMarks := (case wrongMarksInput s of
                                   None \<Rightarrow> None
                                 | Some w \<Rightarrow> if num_positive w then Some (num_neg w)
                                            else Some w),
                  rows := replicate (nat count) createQuestionRow,
                  sheetHidden := False \<rparr>)))"

definition resetEverything :: "state \<Rightarrow> state" where
  "resetEverything s =
     (resetOMRState
        (s\<lparr> questionCountInput := [], correctMarksInput := None, wrongMarksInput := None,
            sheetHidden := True, rows := [], totalQuestions := 0,
            correctMarks := None, wrongMarks := None \<rparr>))
     \<lparr> timerRunning := False \<rparr>"

section \<open>Grading\<close>

text \<open>
  \<open>document.getElementById('q-row-i')\<close>: the rows of the sheet are numbered from 1. A row
  that is not in the document is \<open>null\<close>, and the loop of \<open>gradeSheet\<close> then throws a
  \<open>TypeError\<close> on \<open>row.classList\<close>; the handler is abandoned there, which the model
  reports as \<open>Inl TypeError\<close>, without the state the abandoned handler leaves behind.
  On a sheet that has one row for each of its \<open>totalQuestions\<close> questions, as
  \<open>generateOMRSheet\<close> and \<open>resetEverything\<close> leave it, this does not happen.
\<close>

datatype js_exception = TypeError

definition get_row :: "row list \<Rightarrow> nat \<Rightarrow> row option" where
  "get_row rs i = (if 1 \<le> i \<and> i \<le> length rs then Some (rs ! (i - 1)) else None)"

text \<open>
  The loop of lines 210 to 237, from question \<open>i\<close> up to \<open>n\<close>. Each row loses its old
  class, its radios are disabled and its Clear button is hidden; then the selection is
  compared with \<open>answerKey[i]\<close>.
\<close>

function grade_loop ::
  "answer_key \<Rightarrow> nat \<Rightarrow> nat \<Rightarrow> row list \<Rightarrow> nat \<times> nat \<times> nat
     \<Rightarrow> js_exception + (row list \<times> nat \<times> nat \<times> nat)" where
  "grade_loop key n i rs (correct, incorrect, unanswered) =
     (if i \<le> n then
        (case get_row rs i of
           None \<Rightarrow> Inl TypeError
         | Some r \<Rightarrow>
             (case checked r of
                None \<Rightarrow>
                  grade_loop key n (i + 1)
                    (rs[i - 1 := r\<lparr>rowClass := None, disabled := True, clearHidden := True\<rparr>])
                    (correct, incorrect, unanswered + 1)
              | Some v \<Rightarrow>
                  if map_of key (int i) = Some v then
                    grade_loop key n (i + 1)
                      (rs[i - 1 := r\<lparr>rowClass := Some Correct, disabled := True,
                                      clearHidden := True\<rparr>])
                      (correct + 1, incorrect, unanswered)
                  else
                    grade_loop key n (i + 1)
                      (rs[i - 1 := r\<lparr>rowClass := Some Incorrect, disabled := True,
                                      clearHidden := True\<rparr>])
                      (correct, incorrect + 1, unanswered)))
      else Inr (rs, correct, incorrect, unanswered))"
  by pat_completeness auto
termination
  by (relation "measure (\<lambda>(key, n, i, rs, t). n + 1 - i)") auto

declare grade_loop.simps [simp del]

text \<open>What one pass of the grading loop leaves of the row of question \<open>i\<close>.\<close>

definition graded_row :: "answer_key \<Rightarrow> nat \<Rightarrow> row \<Rightarrow> row" where
  "graded_row key i r =
     r\<lparr>rowClass := (case checked r of
                      None \<Rightarrow> None
                    | Some v \<Rightarrow> if map_of key (int i) = Some v then Some Correct
                               else Some Incorrect),
       disabled := True, clearHidden := True\<rparr>"

text \<open>\<open>wrongMarks || 0\<close>: \<open>null\<close>, 0 and NaN are falsy.\<close>

definition or_zero :: "number option \<Rightarrow> number" where
  "or_zero w = (case w of None \<Rightarrow> Fin 0 | Some v \<Rightarrow> if num_falsy v then Fin 0 else v)"

definition gradeSheet :: "int \<Rightarrow> state \<Rightarrow> js_exception + state" where
  "gradeSheet now s =
     (let s1 = (stopTimer now s)\<lparr>checkError := None, isGraded := True\<rparr> in
      case grade_loop (answerKey s1) (totalQuestions s1) 1 (rows s1) (0, 0, 0) of
        Inl e \<Rightarrow> Inl e
      | Inr (rs, correct, incorrect, unanswered) \<Rightarrow>
          Inr (s1\<lparr> rows := rs,
                   results := Some
                     \<lparr> correctCount = correct, incorrectCount = incorrect,
                       unansweredCount = unanswered,
                       scoreShown =
                         (case correctMarks s1 of
                            Some cm \<Rightarrow>
                              Marks (num_add (num_mul (Fin (of_nat correct)) cm)
                                       (num_mul (Fin (of_nat incorrect))
                                          (or_zero (wrongMarks s1))))
                                    (num_mul (Fin (of_nat (totalQuestions s1))) cm)
                          | None \<Rightarrow> RawCount correct (totalQuestions s1)) \<rparr> \<rparr>))"

section \<open>Finish and check\<close>

text \<open>
  Line 189: \<open>for (i = 0; i < manualKey.length; i++) answerKey[i + 1] = manualKey[i]\<close>.
\<close>

function manual_key_loop :: "string \<Rightarrow> nat \<Rightarrow> answer_key \<Rightarrow> answer_key" where
  "manual_key_loop manualKey i key =
     (if i < length manualKey
      then manual_key_loop manualKey (i + 1)
             (AList.update (int (i + 1)) [manualKey ! i] key)
      else key)"
  by pat_completeness auto
termination
  by (relation "measure (\<lambda>(manualKey, i, key). length manualKey - i)") auto

declare manual_key_loop.simps [simp del]

definition handleCheckAnswers :: "int \<Rightarrow> state \<Rightarrow> js_exception + state" where
  "handleCheckAnswers now s =
     (let manualKey = toUpperCase (trim (manualKeyInput s)) in
      if manualKey \<noteq> [] \<or> key_count (answerKey s) > 0 then
        if manualKey \<noteq> [] then
          if length manualKey \<noteq> totalQuestions s then
            Inr (s\<lparr>checkError := Some (LengthMismatch (length manualKey) (totalQuestions s))\<rparr>)
          else gradeSheet now (s\<lparr>answerKey := manual_key_loop manualKey 0 []\<rparr>)
        else if key_count (answerKey s) \<noteq> totalQuestions s then
          Inr (s\<lparr>checkError :=
                   Some (KeyCardinalityMismatch (key_count (answerKey s)) (totalQuestions s))\<rparr>)
        else gradeSheet now s
      else Inr (s\<lparr>confirmModal := True\<rparr>))"

definition handleConfirmProceed :: "int \<Rightarrow> state \<Rightarrow> state" where
  "handleConfirmProceed now s =
     (stopTimer now (s\<lparr>confirmModal := False\<rparr>))
       \<lparr> isGraded := False,
         rows := map (\<lambda>r. r\<lparr>disabled := True, clearHidden := True\<rparr>) (rows s),
         statusMessage := Some CanSaveSheet,
         checkBtnOnclick := OnclickSavePdf \<rparr>"

text \<open>
  \<open>window.clearSelection(i)\<close>: the radios named \<open>question-i\<close> are unchecked and enabled;
  with no such radios the \<open>forEach\<close> runs over nothing.
\<close>

definition clearSelection :: "nat \<Rightarrow> state \<Rightarrow> state" where
  "clearSelection i s =
     (case get_row (rows s) i of
        None \<Rightarrow> s
      | Some r \<Rightarrow> s\<lparr>rows := (rows s)[i - 1 := r\<lparr>checked := None, disabled := False\<rparr>]\<rparr>)"

section \<open>Answer keys from files\<close>

text \<open>
  A spreadsheet row is the array of its cell values: integers, strings, or nothing
  (\<open>undefined\<close>, which is also what \<open>row[j]\<close> reads past the end). \<open>String_js\<close> is the
  conversion that \<open>parseInt\<close> and \<open>String\<close> apply to a cell; integers are below \<open>10^21\<close>
  in magnitude, where the conversion prints plain decimal digits.
\<close>

datatype cell = Num int | Str string | Undefined

definition String_js :: "cell \<Rightarrow> string" where
  "String_js c =
     (case c of
        Num n \<Rightarrow> if n < 0 then CHR ''-'' # digits_of (nat (- n)) else digits_of (nat n)
      | Str s \<Rightarrow> s
      | Undefined \<Rightarrow> ''undefined'')"

definition col :: "cell list \<Rightarrow> nat \<Rightarrow> cell" where
  "col r j = (if j < length r then r ! j else Undefined)"

text \<open>The test of line 538 on one row: the question number and the letter, if accepted.\<close>

definition excel_row :: "cell list \<Rightarrow> (int \<times> string) option" where
  "excel_row r =
     (let qNum = parseInt (String_js (col r 0));
          answer = toUpperCase (trim (String_js (col r 1)))
      in case qNum of
           None \<Rightarrow> None
         | Some q \<Rightarrow> if answer \<in> set [''A'', ''B'', ''C'', ''D''] then Some (q, answer) else None)"

fun excel_rows :: "cell list list \<Rightarrow> answer_key \<Rightarrow> nat \<Rightarrow> answer_key \<times> nat" where
  "excel_rows [] newKey parsedCount = (newKey, parsedCount)"
| "excel_rows (r # data) newKey parsedCount =
     (case excel_row r of
        Some (q, answer) \<Rightarrow> excel_rows data (AList.update q answer newKey) (parsedCount + 1)
      | None \<Rightarrow> excel_rows data newKey parsedCount)"

definition parseAnswerKeyFromExcel :: "cell list list \<Rightarrow> state \<Rightarrow> state" where
  "parseAnswerKeyFromExcel data s =
     (case excel_rows data [] 0 of
        (newKey, parsedCount) \<Rightarrow>
          if parsedCount > 0 then
            s\<lparr> answerKey := newKey, manualKeyInput := [], checkError := None,
               statusMessage := Some (AnswersLoaded parsedCount) \<rparr>
          else s\<lparr>checkError := Some (NoValidEntries Excel)\<rparr>)"

text \<open>
  The regular expression of line 556 is \<open>(\d+)\s*[:.-]?\s*([A-D])\b\<close> with the flag \<open>g\<close> and
  without the flag \<open>i\<close>. \<open>match_here\<close> tries it at the start of a text and returns the
  digits of group 1, the letter of group 2 and the text after the match. The greedy
  choice at each quantifier is the only one that can succeed: a shorter run of digits or
  of white space, or a separator left unread, leaves a digit, a space or a separator where
  the next element needs something else. After the letter, \<open>\b\<close> holds when the text ends
  or goes on with a character that is not a word character.
\<close>

definition match_here :: "string \<Rightarrow> (string \<times> char \<times> string) option" where
  "match_here s =
     (let ds = takeWhile is_digit s;
          r1 = dropWhile is_space (dropWhile is_digit s);
          r2 = (if r1 \<noteq> [] \<and> hd r1 \<in> set '':.-'' then tl r1 else r1);
          r3 = dropWhile is_space r2
      in if ds \<noteq> [] \<and> r3 \<noteq> [] \<and> hd r3 \<in> set ''ABCD''
            \<and> (tl r3 = [] \<or> \<not> is_word (hd (tl r3)))
         then Some (ds, hd r3, tl r3) else None)"

text \<open>\<open>regex.exec\<close>: the leftmost match at or after the current position.\<close>

fun regex_exec :: "string \<Rightarrow> (string \<times> char \<times> string) option" where
  "regex_exec [] = None"
| "regex_exec (c # cs) =
     (case match_here (c # cs) of
        Some m \<Rightarrow> Some m
      | None \<Rightarrow> regex_exec cs)"

text \<open>
  The loop of lines 560 to 563; each match moves \<open>lastIndex\<close> behind the letter. Group 1
  is a non-empty run of digits, so \<open>parseInt\<close> always reads a number from it.
\<close>

function text_loop :: "string \<Rightarrow> answer_key \<Rightarrow> nat \<Rightarrow> answer_key \<times> nat" where
  "text_loop text newKey parsedCount =
     (case regex_exec text of
        None \<Rightarrow> (newKey, parsedCount)
      | Some (ds, letter, rest) \<Rightarrow>
          text_loop rest
            (case parseInt ds of
               Some q \<Rightarrow> AList.update q (toUpperCase [letter]) newKey
             | None \<Rightarrow> newKey)
            (parsedCount + 1))"
  by pat_completeness auto
termination
proof (relation "measure (\<lambda>(text, newKey, parsedCount). length text)")
  show "wf (measure (\<lambda>(text, newKey, parsedCount). length text))"
    by simp
next
  fix input :: string and newKey :: answer_key and parsedCount :: nat
    and x2 :: "string \<times> char \<times> string" and ds :: string and y :: "char \<times> string"
    and letter :: char and rest :: string
  assume ex: "regex_exec input = Some x2" and x2: "(ds, y) = x2" and y: "(letter, rest) = y"
  have drop_le: "length (dropWhile P xs) \<le> length xs" for P and xs :: string
    by (induction xs) auto
  have here: "length r < length t" if "match_here t = Some (d, l, r)" for t d l r
  proof -
    define r1 where "r1 = dropWhile is_space (dropWhile is_digit t)"
    define r2 where "r2 = (if r1 \<noteq> [] \<and> hd r1 \<in> set '':.-'' then tl r1 else r1)"
    define r3 where "r3 = dropWhile is_space r2"
    from that have "r3 \<noteq> []" and "r = tl r3"
      by (auto simp: match_here_def Let_def r1_def r2_def r3_def split: if_splits)
    then have "length r < length r3"
      by (cases r3) auto
    moreover have "length r3 \<le> length r2"
      unfolding r3_def by (rule drop_le)
    moreover have "length r2 \<le> length r1"
      unfolding r2_def by (cases r1) auto
    moreover have "length r1 \<le> length t"
      unfolding r1_def using drop_le [of is_space "dropWhile is_digit t"] drop_le [of is_digit t]
      by linarith
    ultimately show ?thesis by linarith
  qed
  have "length r < length t" if "regex_exec t = Some (d, l, r)" for t d l r
    using that
  proof (induction t)
    case Nil
    then show ?case by simp
  next
    case (Cons c cs)
    show ?case
    proof (cases "match_here (c # cs)")
      case None
      with Cons show ?thesis by fastforce
    next
      case (Some m)
      with Cons.prems have "match_here (c # cs) = Some (d, l, r)" by simp
      then show ?thesis by (rule here)
    qed
  qed
  with ex x2 y have "length rest < length input" by metis
  then show "((rest, (case parseInt ds of
                         Some q \<Rightarrow> AList.update q (toUpperCase [letter]) newKey
                       | None \<Rightarrow> newKey), parsedCount + 1),
              input, newKey, parsedCount)
             \<in> measure (\<lambda>(text, newKey, parsedCount). length text)"
    by simp
qed

declare text_loop.simps [simp del]

definition parseAnswerKeyFromText :: "string \<Rightarrow> state \<Rightarrow> state" where
  "parseAnswerKeyFromText text s =
     (case text_loop text [] 0 of
        (newKey, parsedCount) \<Rightarrow>
          if parsedCount > 0 then
            s\<lparr> answerKey := newKey, manualKeyInput := [], checkError := None,
               statusMessage := Some (AnswersLoaded parsedCount) \<rparr>
          else s\<lparr>checkError := Some (NoValidEntries Pdf)\<rparr>)"

section \<open>Events\<close>

text \<open>
  What the page lets the user do to the sheet. A click on a radio button checks it unless
  the button is disabled; the radios of a row are the options A to D. A click on the Clear
  button of a row calls \<open>clearSelection\<close> unless the button is hidden
  (\<open>style.display = 'none'\<close>). Typing changes the text of the manual key field.
\<close>

definition selectOption :: "nat \<Rightarrow> string \<Rightarrow> state \<Rightarrow> state" where
  "selectOption i v s =
     (case get_row (rows s) i of
        None \<Rightarrow> s
      | Some r \<Rightarrow>
          if disabled r \<or> v \<notin> set [''A'', ''B'', ''C'', ''D''] then s
          else s\<lparr>rows := (rows s)[i - 1 := r\<lparr>checked := Some v\<rparr>]\<rparr>)"

definition clickClear :: "nat \<Rightarrow> state \<Rightarrow> state" where
  "clickClear i s =
     (case get_row (rows s) i of
        None \<Rightarrow> s
      | Some r \<Rightarrow> if clearHidden r then s else clearSelection i s)"

text \<open>
  The events of a session, each with the clock reading or the input it carries:
  the handlers the script registers (lines 84 to 92, and the decoded file handed to the
  two parsers by \<open>handleFileUpload\<close>) and the user actions above.
\<close>

datatype event =
    Generate int
  | Reset
  | Check int
  | ConfirmProceed int
  | UploadExcel "cell list list"
  | UploadPdf string
  | SelectOption nat string
  | ClickClear nat
  | TypeManualKey string

fun apply_event :: "event \<Rightarrow> state \<Rightarrow> js_exception + state" where
  "apply_event (Generate now) s = Inr (generateOMRSheet now s)"
| "apply_event Reset s = Inr (resetEverything s)"
| "apply_event (Check now) s = handleCheckAnswers now s"
| "apply_event (ConfirmProceed now) s = Inr (handleConfirmProceed now s)"
| "apply_event (UploadExcel data) s = Inr (parseAnswerKeyFromExcel data s)"
| "apply_event (UploadPdf content) s = Inr (parseAnswerKeyFromText content s)"
| "apply_event (SelectOption i v) s = Inr (selectOption i v s)"
| "apply_event (ClickClear i) s = Inr (clickClear i s)"
| "apply_event (TypeManualKey k) s = Inr (s\<lparr>manualKeyInput := k\<rparr>)"

fun run :: "event list \<Rightarrow> state \<Rightarrow> js_exception + state" where
  "run [] s = Inr s"
| "run (e # es) s = (case apply_event e s of Inl x \<Rightarrow> Inl x | Inr s' \<Rightarrow> run es s')"

text \<open>The events that call \<open>resetOMRState\<close>.\<close>

fun resets :: "event \<Rightarrow> bool" where
  "resets (Generate now) = True"
| "resets Reset = True"
| "resets e = False"

section \<open>A sample sheet\<close>

text \<open>
  Three questions, two marks for a correct answer and one mark off for a wrong one, key
  A, B, C; the candidate has marked A for question 1, C for question 2 and nothing for
  question 3.
\<close>

definition sample_sheet :: state where
  "sample_sheet =
     init\<lparr> totalQuestions := 3, correctMarks := Some (Fin 2), wrongMarks := Some (Fin (- 1)),
           answerKey := [(1, ''A''), (2, ''B''), (3, ''C'')],
           rows := [createQuestionRow\<lparr>checked := Some ''A''\<rparr>,
                    createQuestionRow\<lparr>checked := Some ''C''\<rparr>,
                    createQuestionRow] \<rparr>"

text \<open>
  Three questions at 0.1 marks each, 0.1 being the double \<open>3602879701896397 / 2^55\<close>, key
  A, A, A, and the candidate has marked A for all three.
\<close>

definition tenth_sheet :: state where
  "tenth_sheet =
     init\<lparr> totalQuestions := 3,
           correctMarks := Some (Fin (3602879701896397 / 36028797018963968)),
           answerKey := [(1, ''A''), (2, ''A''), (3, ''A'')],
           rows := [createQuestionRow\<lparr>checked := Some ''A''\<rparr>,
                    createQuestionRow\<lparr>checked := Some ''A''\<rparr>,
                    createQuestionRow\<lparr>checked := Some ''A''\<rparr>] \<rparr>"

text \<open>A sheet of two questions as \<open>generateOMRSheet\<close> builds it at clock reading 0.\<close>

definition fresh_sheet :: state where
  "fresh_sheet = generateOMRSheet 0 (init\<lparr>questionCountInput := ''2''\<rparr>)"

text \<open>The same sheet after a spreadsheet with the rows [1, "a"], [2, "B"] has been uploaded.\<close>

definition uploaded_sheet :: state where
  "uploaded_sheet = parseAnswerKeyFromExcel [[Num 1, Str ''a''], [Num 2, Str ''B'']] fresh_sheet"

text \<open>The sheet with the uploaded key, after the candidate has marked A for question 1.\<close>

definition marked_sheet :: state where
  "marked_sheet = selectOption 1 ''A'' uploaded_sheet"

section \<open>Auxiliary facts about the loops\<close>

lemma bits_numeral:
  "bits 0 = 0" "bits 1 = 1" "bits (Suc 0) = 1"
  "bits (numeral Num.One) = 1"
  "bits (numeral (Num.Bit0 k)) = Suc (bits (numeral k))"
  "bits (numeral (Num.Bit1 k)) = Suc (bits (numeral k))"
proof -
  show "bits 0 = 0" by (simp add: bits.simps)
  show one: "bits 1 = 1" by (simp add: bits.simps)
  then show "bits (Suc 0) = 1" by simp
  from one show "bits (numeral Num.One) = 1" by simp
  have "bits (numeral (Num.Bit0 k)) = Suc (bits (numeral (Num.Bit0 k) div 2))"
    by (subst bits.simps) simp
  then show "bits (numeral (Num.Bit0 k)) = Suc (bits (numeral k))" by simp
  have "bits (numeral (Num.Bit1 k)) = Suc (bits (numeral (Num.Bit1 k) div 2))"
    by (subst bits.simps) simp
  then show "bits (numeral (Num.Bit1 k)) = Suc (bits (numeral k))" by simp
qed

lemma floor_numeral_quot:
  "\<lfloor>(numeral a :: rat) / numeral b\<rfloor> = numeral a div numeral b"
  "\<lfloor>(1 :: rat) / numeral b\<rfloor> = 1 div numeral b"
  using floor_divide_of_int_eq [of "numeral a" "numeral b", where ?'a = rat]
    floor_divide_of_int_eq [of 1 "numeral b", where ?'a = rat]
  by simp_all

lemma ceiling_numeral_quot:
  "\<lceil>(numeral a :: rat) / numeral b\<rceil> = - ((- numeral a) div numeral b)"
  "\<lceil>(1 :: rat) / numeral b\<rceil> = - ((- 1) div numeral b)"
  using floor_divide_of_int_eq [of "- numeral a" "numeral b", where ?'a = rat]
    floor_divide_of_int_eq [of "- 1" "numeral b", where ?'a = rat]
  by (simp_all add: ceiling_def)

lemmas num_simps = fl_def ilog2_def pow2_def round_even_def bits_numeral Let_def
  floor_numeral_quot ceiling_numeral_quot

lemma fl_small:
  "fl 1 = Fin 1" "fl 2 = Fin 2" "fl 6 = Fin 6" "fl (- 1) = Fin (- 1)"
  "fl (1 / 10) = Fin (3602879701896397 / 36028797018963968)"
  by (simp_all add: num_simps)

lemma update_fresh: "k \<notin> fst ` set al \<Longrightarrow> AList.update k v al = al @ [(k, v)]"
  by (induction al) auto

lemma manual_key_loop_prefix:
  "i \<le> length m \<Longrightarrow>
   manual_key_loop m i (map (\<lambda>j. (int j + 1, [m ! j])) [0..<i])
     = map (\<lambda>j. (int j + 1, [m ! j])) [0..<length m]"
proof (induction "length m - i" arbitrary: i)
  case 0
  then show ?case by (simp add: manual_key_loop.simps)
next
  case (Suc d)
  then have lt: "i < length m" by linarith
  have fresh: "int (i + 1) \<notin> fst ` set (map (\<lambda>j. (int j + 1, [m ! j])) [0..<i])"
    by (auto simp: image_iff)
  have upd: "AList.update (int (i + 1)) [m ! i] (map (\<lambda>j. (int j + 1, [m ! j])) [0..<i])
               = map (\<lambda>j. (int j + 1, [m ! j])) [0..<i + 1]"
    unfolding update_fresh [OF fresh] by simp
  have "manual_key_loop m i (map (\<lambda>j. (int j + 1, [m ! j])) [0..<i])
          = manual_key_loop m (i + 1) (map (\<lambda>j. (int j + 1, [m ! j])) [0..<i + 1])"
    using lt by (subst manual_key_loop.simps) (simp only: upd if_True)
  also have "\<dots> = map (\<lambda>j. (int j + 1, [m ! j])) [0..<length m]"
    using Suc.hyps(1) [of "i + 1"] Suc.hyps(2) lt by simp
  finally show ?case .
qed

lemma manual_key_loop_eq:
  "manual_key_loop m 0 [] = map (\<lambda>j. (int j + 1, [m ! j])) [0..<length m]"
  using manual_key_loop_prefix [of 0 m] by simp

lemma card_from:
  fixes i n :: nat
  assumes "i \<le> n"
  shows "card {j \<in> {i..n}. P j} = (if P i then 1 else 0) + card {j \<in> {Suc i..n}. P j}"
proof -
  have fin: "finite {j \<in> {Suc i..n}. P j}" by simp
  have notin: "i \<notin> {j \<in> {Suc i..n}. P j}" by simp
  show ?thesis
  proof (cases "P i")
    case True
    with assms have "{j \<in> {i..n}. P j} = insert i {j \<in> {Suc i..n}. P j}"
      by (auto simp: Suc_le_eq le_less)
    with fin notin True show ?thesis by simp
  next
    case False
    with assms have "{j \<in> {i..n}. P j} = {j \<in> {Suc i..n}. P j}"
      by (auto simp: Suc_le_eq le_less)
    with False show ?thesis by simp
  qed
qed

lemma grade_loop_spec:
  "n \<le> length rs \<Longrightarrow> 1 \<le> i \<Longrightarrow>
   \<exists>rs'. grade_loop key n i rs (c, w, u) =
           Inr (rs',
                c + card {j \<in> {i..n}. \<exists>v. checked (rs ! (j - 1)) = Some v
                                          \<and> map_of key (int j) = Some v},
                w + card {j \<in> {i..n}. \<exists>v. checked (rs ! (j - 1)) = Some v
                                          \<and> map_of key (int j) \<noteq> Some v},
                u + card {j \<in> {i..n}. checked (rs ! (j - 1)) = None})
         \<and> length rs' = length rs
         \<and> (\<forall>j. 1 \<le> j \<and> j \<le> length rs \<longrightarrow>
               rs' ! (j - 1) = (if i \<le> j \<and> j \<le> n then graded_row key j (rs ! (j - 1))
                                else rs ! (j - 1)))"
proof (induction key n i rs "(c, w, u)" arbitrary: c w u rule: grade_loop.induct)
  case (1 key n i rs c w u)
  show ?case
  proof (cases "i \<le> n")
    case False
    then show ?thesis
      by (subst grade_loop.simps) auto
  next
    case True
    with "1.prems" have row: "get_row rs i = Some (rs ! (i - 1))"
      by (simp add: get_row_def)
    let ?r = "rs ! (i - 1)"
    let ?C = "\<lambda>rs j. \<exists>v. checked (rs ! (j - 1)) = Some v \<and> map_of key (int j) = Some v"
    let ?W = "\<lambda>rs j. \<exists>v. checked (rs ! (j - 1)) = Some v \<and> map_of key (int j) \<noteq> Some v"
    let ?U = "\<lambda>rs j. checked (rs ! (j - 1)) = None"
    have later: "(rs[i - 1 := x]) ! (j - 1) = rs ! (j - 1)" if "Suc i \<le> j" for x j
      using that "1.prems" by (simp add: nth_list_update)
    have cardC: "card {j \<in> {Suc i..n}. ?C (rs[i - 1 := x]) j} = card {j \<in> {Suc i..n}. ?C rs j}" for x
      using later by (intro arg_cong [where f = card] Collect_cong) auto
    have cardW: "card {j \<in> {Suc i..n}. ?W (rs[i - 1 := x]) j} = card {j \<in> {Suc i..n}. ?W rs j}" for x
      using later by (intro arg_cong [where f = card] Collect_cong) auto
    have cardU: "card {j \<in> {Suc i..n}. ?U (rs[i - 1 := x]) j} = card {j \<in> {Suc i..n}. ?U rs j}" for x
      using later by (intro arg_cong [where f = card] Collect_cong) auto
    have len: "n \<le> length (rs[i - 1 := x])" for x
      using "1.prems" by simp
    have rows': "(if Suc i \<le> j \<and> j \<le> n then graded_row key j ((rs[i - 1 := x]) ! (j - 1))
                  else (rs[i - 1 := x]) ! (j - 1))
                 = (if i \<le> j \<and> j \<le> n then graded_row key j (rs ! (j - 1)) else rs ! (j - 1))"
      if "1 \<le> j" "j \<le> length rs" "x = graded_row key i ?r" for j x
    proof (cases "j = i")
      case True
      with that \<open>i \<le> n\<close> "1.prems" show ?thesis by simp
    next
      case False
      with that "1.prems" have "(rs[i - 1 := x]) ! (j - 1) = rs ! (j - 1)"
        by (simp add: nth_list_update) 
      with False show ?thesis by (auto simp: Suc_le_eq)
    qed
    let ?x = "graded_row key i ?r"
    let ?c' = "c + (if ?C rs i then 1 else 0)"
    let ?w' = "w + (if ?W rs i then 1 else 0)"
    let ?u' = "u + (if ?U rs i then 1 else 0)"
    have step: "grade_loop key n i rs (c, w, u) = grade_loop key n (i + 1) (rs[i - 1 := ?x]) (?c', ?w', ?u')"
      using True row by (subst grade_loop.simps) (simp add: graded_row_def split: option.split)
    have ih: "\<exists>rs'. grade_loop key n (i + 1) (rs[i - 1 := ?x]) (?c', ?w', ?u') =
           Inr (rs', ?c' + card {j \<in> {i + 1..n}. ?C (rs[i - 1 := ?x]) j},
                ?w' + card {j \<in> {i + 1..n}. ?W (rs[i - 1 := ?x]) j},
                ?u' + card {j \<in> {i + 1..n}. ?U (rs[i - 1 := ?x]) j})
         \<and> length rs' = length (rs[i - 1 := ?x])
         \<and> (\<forall>j. 1 \<le> j \<and> j \<le> length (rs[i - 1 := ?x]) \<longrightarrow>
               rs' ! (j - 1) = (if i + 1 \<le> j \<and> j \<le> n then graded_row key j ((rs[i - 1 := ?x]) ! (j - 1))
                                else (rs[i - 1 := ?x]) ! (j - 1)))"
    proof (cases "checked ?r")
      case None
      have x: "?r\<lparr>rowClass := None, disabled := True, clearHidden := True\<rparr> = ?x"
        using None by (simp add: graded_row_def)
      show ?thesis
        using "1.hyps"(1) [OF True row None len] None unfolding x by simp
    next
      case (Some v)
      show ?thesis
      proof (cases "map_of key (int i) = Some v")
        case True
        have x: "?r\<lparr>rowClass := Some Correct, disabled := True, clearHidden := True\<rparr> = ?x"
          using Some True by (simp add: graded_row_def)
        show ?thesis
          using "1.hyps"(2) [OF \<open>i \<le> n\<close> row Some True len] Some True unfolding x by simp
      next
        case False
        have x: "?r\<lparr>rowClass := Some Incorrect, disabled := True, clearHidden := True\<rparr> = ?x"
          using Some False by (simp add: graded_row_def)
        show ?thesis
          using "1.hyps"(3) [OF \<open>i \<le> n\<close> row Some False len] Some False unfolding x by simp
      qed
    qed
    then obtain rs' where res: "grade_loop key n (i + 1) (rs[i - 1 := ?x]) (?c', ?w', ?u') =
           Inr (rs', ?c' + card {j \<in> {i + 1..n}. ?C (rs[i - 1 := ?x]) j},
                ?w' + card {j \<in> {i + 1..n}. ?W (rs[i - 1 := ?x]) j},
                ?u' + card {j \<in> {i + 1..n}. ?U (rs[i - 1 := ?x]) j})"
      and len': "length rs' = length rs"
      and nth': "\<And>j. 1 \<le> j \<Longrightarrow> j \<le> length rs \<Longrightarrow>
               rs' ! (j - 1) = (if i + 1 \<le> j \<and> j \<le> n then graded_row key j ((rs[i - 1 := ?x]) ! (j - 1))
                                else (rs[i - 1 := ?x]) ! (j - 1))"
      by auto
    have "grade_loop key n i rs (c, w, u) =
           Inr (rs', c + card {j \<in> {i..n}. ?C rs j}, w + card {j \<in> {i..n}. ?W rs j},
                u + card {j \<in> {i..n}. ?U rs j})"
      unfolding step res
      by (simp only: cardC cardW cardU card_from [OF True, of "?C rs"] card_from [OF True, of "?W rs"]
            card_from [OF True, of "?U rs"] add.assoc Suc_eq_plus1 [symmetric])
    moreover have "rs' ! (j - 1) = (if i \<le> j \<and> j \<le> n then graded_row key j (rs ! (j - 1)) else rs ! (j - 1))"
      if "1 \<le> j" "j \<le> length rs" for j
      using nth' [OF that] rows' [OF that refl] by simp
    ultimately show ?thesis using len' by blast
  qed
qed

lemmas text_simps = is_space_def is_digit_def is_word_def digit_val_def digits_val_def
  to_upper_def toUpperCase_def trim_def parseInt_def Let_def

lemma gradeSheet_spec:
  assumes "length (rows s) = totalQuestions s"
  shows "\<exists>rs. gradeSheet now s =
      Inr (s\<lparr> timerRunning := False, timeTaken := Some (now - startTime s),
               checkError := None, isGraded := True, rows := rs,
               results := Some
                 \<lparr> correctCount = card {j \<in> {1..totalQuestions s}. \<exists>v. checked (rows s ! (j - 1)) = Some v
                                          \<and> map_of (answerKey s) (int j) = Some v},
                   incorrectCount = card {j \<in> {1..totalQuestions s}. \<exists>v. checked (rows s ! (j - 1)) = Some v
                                          \<and> map_of (answerKey s) (int j) \<noteq> Some v},
                   unansweredCount = card {j \<in> {1..totalQuestions s}. checked (rows s ! (j - 1)) = None},
                   scoreShown =
                     (case correctMarks s of
                        Some cm \<Rightarrow>
                          Marks (num_add
                                   (num_mul (Fin (of_nat (card {j \<in> {1..totalQuestions s}. \<exists>v. checked (rows s ! (j - 1)) = Some v
                                          \<and> map_of (answerKey s) (int j) = Some v}))) cm)
                                   (num_mul (Fin (of_nat (card {j \<in> {1..totalQuestions s}. \<exists>v. checked (rows s ! (j - 1)) = Some v
                                          \<and> map_of (answerKey s) (int j) \<noteq> Some v}))) (or_zero (wrongMarks s))))
                                (num_mul (Fin (of_nat (totalQuestions s))) cm)
                      | None \<Rightarrow> RawCount (card {j \<in> {1..totalQuestions s}. \<exists>v. checked (rows s ! (j - 1)) = Some v
                                          \<and> map_of (answerKey s) (int j) = Some v}) (totalQuestions s)) \<rparr> \<rparr>)
      \<and> length rs = length (rows s)
      \<and> (\<forall>j. 1 \<le> j \<and> j \<le> totalQuestions s \<longrightarrow>
            rs ! (j - 1) = graded_row (answerKey s) j (rows s ! (j - 1)))"
proof -
  from assms have le: "totalQuestions s \<le> length (rows s)" by simp
  from grade_loop_spec [OF le, of 1 "answerKey s" 0 0 0]
  obtain rs where
    loop: "grade_loop (answerKey s) (totalQuestions s) 1 (rows s) (0, 0, 0) =
           Inr (rs,
                0 + card {j \<in> {1..totalQuestions s}. \<exists>v. checked (rows s ! (j - 1)) = Some v
                                          \<and> map_of (answerKey s) (int j) = Some v},
                0 + card {j \<in> {1..totalQuestions s}. \<exists>v. checked (rows s ! (j - 1)) = Some v
                                          \<and> map_of (answerKey s) (int j) \<noteq> Some v},
                0 + card {j \<in> {1..totalQuestions s}. checked (rows s ! (j - 1)) = None})"
    and len: "length rs = length (rows s)"
    and nth: "\<forall>j. 1 \<le> j \<and> j \<le> length (rows s) \<longrightarrow>
               rs ! (j - 1) = (if 1 \<le> j \<and> j \<le> totalQuestions s
                               then graded_row (answerKey s) j (rows s ! (j - 1))
                               else rows s ! (j - 1))"
    by blast
  have "gradeSheet now s = Inr (s\<lparr> timerRunning := False, timeTaken := Some (now - startTime s),
               checkError := None, isGraded := True, rows := rs,
               results := Some
                 \<lparr> correctCount = card {j \<in> {1..totalQuestions s}. \<exists>v. checked (rows s ! (j - 1)) = Some v
                                          \<and> map_of (answerKey s) (int j) = Some v},
                   incorrectCount = card {j \<in> {1..totalQuestions s}. \<exists>v. checked (rows s ! (j - 1)) = Some v
                                          \<and> map_of (answerKey s) (int j) \<noteq> Some v},
                   unansweredCount = card {j \<in> {1..totalQuestions s}. checked (rows s ! (j - 1)) = None},
                   scoreShown =
                     (case correctMarks s of
                        Some cm \<Rightarrow>
                          Marks (num_add
                                   (num_mul (Fin (of_nat (card {j \<in> {1..totalQuestions s}. \<exists>v. checked (rows s ! (j - 1)) = Some v
                                          \<and> map_of (answerKey s) (int j) = Some v}))) cm)
                                   (num_mul (Fin (of_nat (card {j \<in> {1..totalQuestions s}. \<exists>v. checked (rows s ! (j - 1)) = Some v
                                          \<and> map_of (answerKey s) (int j) \<noteq> Some v}))) (or_zero (wrongMarks s))))
                                (num_mul (Fin (of_nat (totalQuestions s))) cm)
                      | None \<Rightarrow> RawCount (card {j \<in> {1..totalQuestions s}. \<exists>v. checked (rows s ! (j - 1)) = Some v
                                          \<and> map_of (answerKey s) (int j) = Some v}) (totalQuestions s)) \<rparr> \<rparr>)"
    by (simp add: gradeSheet_def stopTimer_def Let_def loop del: One_nat_def split: option.split)
  moreover have "rs ! (j - 1) = graded_row (answerKey s) j (rows s ! (j - 1))"
    if "1 \<le> j \<and> j \<le> totalQuestions s" for j
    using nth that assms by simp
  ultimately show ?thesis using len by blast
qed


lemma gradeSheet_sample:
  "gradeSheet now sample_sheet =
     Inr (sample_sheet
            \<lparr> timerRunning := False, timeTaken := Some now, checkError := None, isGraded := True,
              rows := [\<lparr>checked = Some ''A'', disabled = True, clearHidden = True,
                         rowClass = Some Correct\<rparr>,
                       \<lparr>checked = Some ''C'', disabled = True, clearHidden = True,
                         rowClass = Some Incorrect\<rparr>,
                       \<lparr>checked = None, disabled = True, clearHidden = True,
                         rowClass = None\<rparr>],
              results := Some \<lparr>correctCount = 1, incorrectCount = 1, unansweredCount = 1,
                               scoreShown = Marks (Fin 1) (Fin 6)\<rparr> \<rparr>)"
  by (simp add: gradeSheet_def stopTimer_def sample_sheet_def init_def createQuestionRow_def
      grade_loop.simps get_row_def or_zero_def Let_def fl_small)

lemma fresh_sheet_eq:
  "fresh_sheet =
     init\<lparr> questionCountInput := ''2'', totalQuestions := 2, timerRunning := True,
           rows := [createQuestionRow, createQuestionRow], sheetHidden := False,
           checkBtnOnclick := OnclickCheck \<rparr>"
  by (simp add: fresh_sheet_def generateOMRSheet_def resetOMRState_def startTimer_def init_def
      createQuestionRow_def text_simps numeral_2_eq_2)

lemma map_of_tabulate:
  "inj_on f (set xs) \<Longrightarrow> i \<in> set xs \<Longrightarrow> map_of (map (\<lambda>j. (f j, g j)) xs) (f i) = Some (g i)"
  by (induction xs) (auto simp: inj_on_def)

lemma typed_key_lookup:
  "i < length m \<Longrightarrow> map_of (map (\<lambda>j. (int j + 1, [m ! j])) [0..<length m]) (int i + 1) = Some [m ! i]"
  using map_of_tabulate [of "\<lambda>j. int j + 1" "[0..<length m]" i "\<lambda>j. [m ! j]"]
  by (simp add: inj_on_def)

lemma handleCheckAnswers_manual:
  assumes "toUpperCase (trim (manualKeyInput s)) = m" and "m \<noteq> []"
  shows "handleCheckAnswers now s =
           (if length m \<noteq> totalQuestions s
            then Inr (s\<lparr>checkError := Some (LengthMismatch (length m) (totalQuestions s))\<rparr>)
            else gradeSheet now (s\<lparr>answerKey := map (\<lambda>j. (int j + 1, [m ! j])) [0..<length m]\<rparr>))"
  using assms by (simp add: handleCheckAnswers_def Let_def manual_key_loop_eq)

lemma gradeSheet_returns:
  assumes "length (rows s) = totalQuestions s"
  shows "\<exists>s'. gradeSheet now s = Inr s' \<and> answerKey s' = answerKey s \<and> checkError s' = None
            \<and> isGraded s' \<and> results s' \<noteq> None \<and> timeTaken s' = Some (now - startTime s)
            \<and> startTime s' = startTime s \<and> totalQuestions s' = totalQuestions s
            \<and> length (rows s') = length (rows s)
            \<and> map checked (rows s') = map checked (rows s)
            \<and> (\<forall>r \<in> set (rows s'). disabled r \<and> clearHidden r)"
proof -
  from gradeSheet_spec [OF assms, of now] obtain rs s' where
    s': "gradeSheet now s = Inr s'"
    and fields: "answerKey s' = answerKey s" "checkError s' = None" "isGraded s'"
      "results s' \<noteq> None" "timeTaken s' = Some (now - startTime s)" "startTime s' = startTime s"
      "totalQuestions s' = totalQuestions s" "rows s' = rs"
    and len: "length rs = length (rows s)"
    and nth: "\<forall>j. 1 \<le> j \<and> j \<le> totalQuestions s \<longrightarrow>
            rs ! (j - 1) = graded_row (answerKey s) j (rows s ! (j - 1))"
    by fastforce
  have at: "rs ! k = graded_row (answerKey s) (k + 1) (rows s ! k)" if "k < length rs" for k
    using nth [rule_format, of "k + 1"] that len assms by simp
  have "map checked rs = map checked (rows s)"
    by (rule nth_equalityI) (simp_all add: len at graded_row_def)
  moreover have "disabled r \<and> clearHidden r" if "r \<in> set rs" for r
  proof -
    from that obtain k where "k < length rs" "r = rs ! k" by (auto simp: in_set_conv_nth)
    with at show ?thesis by (simp add: graded_row_def)
  qed
  ultimately show ?thesis using s' fields len by auto
qed

lemma handleCheckAnswers_typed:
  assumes "toUpperCase (trim (manualKeyInput s)) = m" and "m \<noteq> []"
    and "length m = totalQuestions s" and "length (rows s) = totalQuestions s"
  shows "\<exists>s'. handleCheckAnswers now s = Inr s'
            \<and> answerKey s' = map (\<lambda>j. (int j + 1, [m ! j])) [0..<length m]
            \<and> checkError s' = None \<and> isGraded s' \<and> results s' \<noteq> None
            \<and> map checked (rows s') = map checked (rows s)"
proof -
  let ?s = "s\<lparr>answerKey := map (\<lambda>j. (int j + 1, [m ! j])) [0..<length m]\<rparr>"
  have "handleCheckAnswers now s = gradeSheet now ?s"
    using handleCheckAnswers_manual [OF assms(1,2), of now] assms(3) by simp
  moreover have "length (rows ?s) = totalQuestions ?s"
    using assms(4) by simp
  from gradeSheet_returns [OF this, of now]
  obtain s' where "gradeSheet now ?s = Inr s'" "answerKey s' = answerKey ?s" "checkError s' = None"
    "isGraded s'" "results s' \<noteq> None" "map checked (rows s') = map checked (rows ?s)"
    by blast
  ultimately show ?thesis by simp
qed

lemma typed_ab: "toUpperCase (trim ''ab'') = ''AB''" "toUpperCase (trim ''ABC'') = ''ABC''"
  "toUpperCase (trim '' ab '') = ''AB''" "toUpperCase (trim ''XY'') = ''XY''"
  "toUpperCase (trim ''  '') = []"
  by (simp_all add: text_simps)

lemma fresh_sheet_fields:
  "totalQuestions fresh_sheet = 2" "length (rows fresh_sheet) = 2" "answerKey fresh_sheet = []"
  "manualKeyInput fresh_sheet = []" "results fresh_sheet = None" "startTime fresh_sheet = 0"
  "correctMarks fresh_sheet = None" "checkError fresh_sheet = None"
  by (simp_all add: fresh_sheet_eq init_def)

lemma snd_update_subset: "snd ` set (AList.update k v al) \<subseteq> insert v (snd ` set al)"
  by (induction al) auto

lemma excel_row_letter:
  "excel_row r = Some (q, a) \<Longrightarrow> a \<in> set [''A'', ''B'', ''C'', ''D'']"
  by (auto simp: excel_row_def Let_def split: option.splits if_splits)

lemma excel_rows_count:
  "snd (excel_rows data k n) = n + length (filter (\<lambda>r. excel_row r \<noteq> None) data)"
  by (induction data arbitrary: k n) (auto split: option.splits)

lemma excel_rows_map:
  "map_of (fst (excel_rows data k n)) = map_of (rev (List.map_filter excel_row data) @ k)"
proof (induction data arbitrary: k n)
  case Nil
  then show ?case by simp
next
  case (Cons r data)
  show ?case
  proof (cases "excel_row r")
    case None
    then show ?thesis using Cons.IH [of k n] by simp
  next
    case (Some p)
    obtain q a where p: "p = (q, a)" by (cases p)
    show ?thesis
      using Cons.IH [of "AList.update q a k" "n + 1"] Some p
      by (simp add: update_conv')
  qed
qed

lemma excel_rows_values:
  "snd ` set k \<subseteq> set [''A'', ''B'', ''C'', ''D''] \<Longrightarrow>
   snd ` set (fst (excel_rows data k n)) \<subseteq> set [''A'', ''B'', ''C'', ''D'']"
proof (induction data arbitrary: k n)
  case Nil
  then show ?case by simp
next
  case (Cons r data)
  show ?case
  proof (cases "excel_row r")
    case None
    then show ?thesis using Cons.IH [OF Cons.prems, of n] by simp
  next
    case (Some p)
    obtain q a where p: "p = (q, a)" by (cases p)
    from Some p have "a \<in> set [''A'', ''B'', ''C'', ''D'']"
      using excel_row_letter [of r q a] by simp
    with Cons.prems snd_update_subset [of q a k]
    have "snd ` set (AList.update q a k) \<subseteq> set [''A'', ''B'', ''C'', ''D'']" by blast
    from Cons.IH [OF this, of "n + 1"] Some p show ?thesis by simp
  qed
qed

lemma regex_exec_letter:
  "regex_exec t = Some (ds, l, rest) \<Longrightarrow> l \<in> set ''ABCD''"
proof (induction t)
  case Nil
  then show ?case by simp
next
  case (Cons c cs)
  show ?case
  proof (cases "match_here (c # cs)")
    case None
    with Cons show ?thesis by simp
  next
    case (Some m)
    with Cons.prems have "match_here (c # cs) = Some (ds, l, rest)" by simp
    then show ?thesis
      by (simp add: match_here_def Let_def split: if_splits)
  qed
qed

lemma toUpperCase_letter:
  assumes "l \<in> set ''ABCD''"
  shows "toUpperCase [l] \<in> set [''A'', ''B'', ''C'', ''D'']"
proof -
  from assms consider "l = CHR ''A''" | "l = CHR ''B''" | "l = CHR ''C''" | "l = CHR ''D''"
    by auto
  then show ?thesis
    by cases (simp_all add: toUpperCase_def to_upper_def)
qed

lemma text_loop_values:
  "snd ` set k \<subseteq> set [''A'', ''B'', ''C'', ''D''] \<Longrightarrow>
   snd ` set (fst (text_loop t k n)) \<subseteq> set [''A'', ''B'', ''C'', ''D'']"
proof (induction t k n rule: text_loop.induct)
  case (1 t k n)
  show ?case
  proof (cases "regex_exec t")
    case None
    with "1.prems" show ?thesis by (subst text_loop.simps) simp
  next
    case (Some m)
    obtain ds l rest where m: "m = (ds, l, rest)" by (cases m)
    let ?k = "case parseInt ds of Some q \<Rightarrow> AList.update q (toUpperCase [l]) k | None \<Rightarrow> k"
    from Some m have "regex_exec t = Some (ds, l, rest)" by simp
    then have "l \<in> set ''ABCD''" by (rule regex_exec_letter)
    then have "toUpperCase [l] \<in> set [''A'', ''B'', ''C'', ''D'']"
      by (rule toUpperCase_letter)
    then have ins: "insert (toUpperCase [l]) (snd ` set k) \<subseteq> set [''A'', ''B'', ''C'', ''D'']"
      using "1.prems" by (rule insert_subsetI)
    have "snd ` set ?k \<subseteq> set [''A'', ''B'', ''C'', ''D'']"
    proof (cases "parseInt ds")
      case None
      with "1.prems" show ?thesis by simp
    next
      case (Some q)
      have "snd ` set (AList.update q (toUpperCase [l]) k) \<subseteq> set [''A'', ''B'', ''C'', ''D'']"
        using snd_update_subset [of q "toUpperCase [l]" k] ins by (rule subset_trans)
      with Some show ?thesis by simp
    qed
    from "1.IH" [OF Some m [symmetric] refl this]
    show ?thesis using Some m by (subst text_loop.simps) simp
  qed
qed

lemma text_loop_count:
  "snd (text_loop t k n) = 0 \<longleftrightarrow> n = 0 \<and> regex_exec t = None"
proof (induction t k n rule: text_loop.induct)
  case (1 t k n)
  show ?case
  proof (cases "regex_exec t")
    case None
    then show ?thesis by (subst text_loop.simps) simp
  next
    case (Some m)
    obtain ds l rest where m: "m = (ds, l, rest)" by (cases m)
    from "1.IH" [OF Some m [symmetric] refl]
    show ?thesis using Some m by (subst text_loop.simps) simp
  qed
qed

lemma excel_example:
  "excel_rows [[Num 1, Str ''a''], [Str ''x'', Str ''B''], [Num 2, Str ''c'']] [] 0
     = ([(1, ''A''), (2, ''C'')], 2)"
  by (simp add: excel_row_def String_js_def col_def digits_of.simps text_simps)

lemma excel_row_cases:
  "excel_row [Num 1, Str ''a''] = Some (1, ''A'')" "excel_row [Str ''x'', Str ''B''] = None"
  "excel_row [Num 2, Str ''c''] = Some (2, ''C'')" "excel_row [Num 1, Str '' a ''] = Some (1, ''A'')"
  "excel_row [Num 0, Str ''A''] = Some (0, ''A'')" "excel_row [Num 7, Str ''B''] = Some (7, ''B'')"
  "excel_row [Num 2, Str ''B''] = Some (2, ''B'')"
  by (simp_all add: excel_row_def String_js_def col_def digits_of.simps text_simps)

lemma text_loop_stored:
  "answerKey (parseAnswerKeyFromText content s) =
     (if 0 < snd (text_loop content [] 0) then fst (text_loop content [] 0) else answerKey s)"
  "manualKeyInput (parseAnswerKeyFromText content s) =
     (if 0 < snd (text_loop content [] 0) then [] else manualKeyInput s)"
  by (cases "text_loop content [] 0"; simp add: parseAnswerKeyFromText_def)+

lemma excel_rows_stored:
  "answerKey (parseAnswerKeyFromExcel data s) =
     (if 0 < snd (excel_rows data [] 0) then fst (excel_rows data [] 0) else answerKey s)"
  "manualKeyInput (parseAnswerKeyFromExcel data s) =
     (if 0 < snd (excel_rows data [] 0) then [] else manualKeyInput s)"
  by (cases "excel_rows data [] 0"; simp add: parseAnswerKeyFromExcel_def)+

lemma text_example: "text_loop ''0 A 9: B'' [] 0 = ([(0, ''A''), (9, ''B'')], 2)"
  by (simp add: text_loop.simps match_here_def text_simps)

lemma excel_out_of_range:
  "excel_rows [[Num 0, Str ''A''], [Num 7, Str ''B'']] [] 0 = ([(0, ''A''), (7, ''B'')], 2)"
  by (simp add: excel_row_cases)

lemma excel_two: "excel_rows [[Num 1, Str ''a''], [Num 2, Str ''B'']] [] 0 = ([(1, ''A''), (2, ''B'')], 2)"
  by (simp add: excel_row_cases)

lemma uploaded_sheet_fields:
  "answerKey uploaded_sheet = [(1, ''A''), (2, ''B'')]" "totalQuestions uploaded_sheet = 2"
  "length (rows uploaded_sheet) = 2" "manualKeyInput uploaded_sheet = []"
  "startTime uploaded_sheet = 0" "correctMarks uploaded_sheet = None"
  "rows uploaded_sheet = rows fresh_sheet"
  by (simp_all add: uploaded_sheet_def parseAnswerKeyFromExcel_def excel_two fresh_sheet_fields
        del: excel_rows.simps)

lemma parse_rows_unchanged:
  "rows (parseAnswerKeyFromExcel data s) = rows s"
  "totalQuestions (parseAnswerKeyFromExcel data s) = totalQuestions s"
  "startTime (parseAnswerKeyFromExcel data s) = startTime s"
  "rows (parseAnswerKeyFromText content s) = rows s"
  "totalQuestions (parseAnswerKeyFromText content s) = totalQuestions s"
  "startTime (parseAnswerKeyFromText content s) = startTime s"
  by (cases "excel_rows data [] 0"; cases "text_loop content [] 0";
      simp add: parseAnswerKeyFromExcel_def parseAnswerKeyFromText_def)+

lemma set_update_subset: "set (AList.update k v al) \<subseteq> insert (k, v) (set al)"
  by (induction al) auto

lemma fst_update: "fst ` set (AList.update k v al) = insert k (fst ` set al)"
  by (simp add: AList.dom_update)

lemma excel_rows_keys:
  "fst ` set (fst (excel_rows data k n))
     = fst ` set k \<union> {q. \<exists>r \<in> set data. \<exists>a. excel_row r = Some (q, a)}"
proof (induction data arbitrary: k n)
  case Nil
  then show ?case by simp
next
  case (Cons r data)
  show ?case
  proof (cases "excel_row r")
    case None
    then show ?thesis using Cons.IH [of k n] by simp
  next
    case (Some p)
    obtain q a where p: "p = (q, a)" by (cases p)
    show ?thesis
      using Cons.IH [of "AList.update q a k" "n + 1"] Some p
      by (auto simp: fst_update)
  qed
qed

lemma excel_rows_entries:
  "set (fst (excel_rows data k n))
     \<subseteq> set k \<union> {(q, a). \<exists>r \<in> set data. excel_row r = Some (q, a)}"
proof (induction data arbitrary: k n)
  case Nil
  then show ?case by simp
next
  case (Cons r data)
  show ?case
  proof (cases "excel_row r")
    case None
    then show ?thesis using Cons.IH [of k n] by auto
  next
    case (Some p)
    obtain q a where p: "p = (q, a)" by (cases p)
    show ?thesis
      using Cons.IH [of "AList.update q a k" "n + 1"] Some p set_update_subset [of q a k]
      by auto
  qed
qed

lemma excel_rows_pos:
  "0 < snd (excel_rows data [] 0) \<longleftrightarrow> (\<exists>r \<in> set data. excel_row r \<noteq> None)"
  by (simp add: excel_rows_count filter_empty_conv)

lemma digit_plain: "is_digit c \<Longrightarrow> \<not> is_space c \<and> c \<noteq> CHR ''-'' \<and> c \<noteq> CHR ''+''"
  by (auto simp: is_digit_def is_space_def)

lemma parseInt_digits:
  assumes "ds \<noteq> []" and "\<forall>c \<in> set ds. is_digit c"
  shows "parseInt ds = Some (int (digits_val ds))"
proof -
  from assms obtain c cs where ds: "ds = c # cs" by (cases ds) auto
  with assms have c: "is_digit c" by simp
  have d: "dropWhile is_space ds = ds"
    using digit_plain [OF c] by (simp add: ds)
  have t: "takeWhile is_digit ds = ds"
    using assms(2) by (simp add: takeWhile_eq_all_conv)
  show ?thesis
    using digit_plain [OF c] assms(1)
    by (simp add: parseInt_def Let_def d t) (simp add: ds)
qed

lemma match_here_digits:
  "match_here t = Some (ds, l, rest) \<Longrightarrow> ds \<noteq> [] \<and> (\<forall>c \<in> set ds. is_digit c)"
  by (auto simp: match_here_def Let_def split: if_splits dest: set_takeWhileD)

lemma regex_exec_digits:
  "regex_exec t = Some (ds, l, rest) \<Longrightarrow> ds \<noteq> [] \<and> (\<forall>c \<in> set ds. is_digit c)"
proof (induction t)
  case Nil
  then show ?case by simp
next
  case (Cons c cs)
  show ?case
  proof (cases "match_here (c # cs)")
    case None
    with Cons show ?thesis by simp
  next
    case (Some m)
    with Cons.prems have "match_here (c # cs) = Some (ds, l, rest)" by simp
    then show ?thesis by (rule match_here_digits)
  qed
qed

lemma regex_exec_number:
  "regex_exec t = Some (ds, l, rest) \<Longrightarrow> parseInt ds = Some (int (digits_val ds))"
  using regex_exec_digits [of t ds l rest] parseInt_digits [of ds] by blast

lemma text_loop_keys:
  "fst ` set k \<subseteq> fst ` set (fst (text_loop t k n))"
proof (induction t k n rule: text_loop.induct)
  case (1 t k n)
  show ?case
  proof (cases "regex_exec t")
    case None
    then show ?thesis by (subst text_loop.simps) simp
  next
    case (Some m)
    obtain ds l rest where m: "m = (ds, l, rest)" by (cases m)
    let ?k = "case parseInt ds of Some q \<Rightarrow> AList.update q (toUpperCase [l]) k | None \<Rightarrow> k"
    have "fst ` set k \<subseteq> fst ` set ?k"
      by (cases "parseInt ds") (auto simp: fst_update)
    also have "\<dots> \<subseteq> fst ` set (fst (text_loop rest ?k (n + 1)))"
      using "1.IH" [OF Some m [symmetric] refl] .
    also have "text_loop rest ?k (n + 1) = text_loop t k n"
      using Some m by (subst (2) text_loop.simps) simp
    finally show ?thesis .
  qed
qed

lemma text_loop_nonneg:
  "\<forall>q \<in> fst ` set k. 0 \<le> q \<Longrightarrow> \<forall>q \<in> fst ` set (fst (text_loop t k n)). 0 \<le> q"
proof (induction t k n rule: text_loop.induct)
  case (1 t k n)
  show ?case
  proof (cases "regex_exec t")
    case None
    with "1.prems" show ?thesis by (subst text_loop.simps) simp
  next
    case (Some m)
    obtain ds l rest where m: "m = (ds, l, rest)" by (cases m)
    let ?k = "case parseInt ds of Some q \<Rightarrow> AList.update q (toUpperCase [l]) k | None \<Rightarrow> k"
    have num: "parseInt ds = Some (int (digits_val ds))"
      using Some m regex_exec_number by simp
    have "\<forall>q \<in> fst ` set ?k. 0 \<le> q"
      using "1.prems" by (auto simp: num fst_update)
    then have "\<forall>q \<in> fst ` set (fst (text_loop rest ?k (n + 1))). 0 \<le> q"
      by (rule "1.IH" [OF Some m [symmetric] refl])
    moreover have "text_loop rest ?k (n + 1) = text_loop t k n"
      using Some m by (subst (2) text_loop.simps) simp
    ultimately show ?thesis by simp
  qed
qed

lemma text_loop_first:
  assumes "regex_exec t = Some (ds, l, rest)"
  shows "int (digits_val ds) \<in> fst ` set (fst (text_loop t k n))"
proof -
  let ?k = "AList.update (int (digits_val ds)) (toUpperCase [l]) k"
  have "text_loop t k n = text_loop rest ?k (n + 1)"
    using assms regex_exec_number [OF assms] by (subst text_loop.simps) simp
  moreover have "int (digits_val ds) \<in> fst ` set ?k" by (simp add: fst_update)
  ultimately show ?thesis using text_loop_keys [of ?k rest "n + 1"] by auto
qed

lemma text_loop_pos: "0 < snd (text_loop t [] 0) \<longleftrightarrow> regex_exec t \<noteq> None"
  using text_loop_count [of t "[]" 0] by auto


lemma handleCheckAnswers_locked:
  assumes wf: "length (rows s) = totalQuestions s"
    and lk: "\<forall>r \<in> set (rows s). disabled r \<and> clearHidden r"
  shows "\<exists>s'. handleCheckAnswers now s = Inr s'
           \<and> length (rows s') = totalQuestions s'
           \<and> (\<forall>r \<in> set (rows s'). disabled r \<and> clearHidden r)
           \<and> map checked (rows s') = map checked (rows s)
           \<and> startTime s' = startTime s"
proof -
  let ?m = "toUpperCase (trim (manualKeyInput s))"
  let ?t = "s\<lparr>answerKey := manual_key_loop ?m 0 []\<rparr>"
  have grade: "\<exists>s'. gradeSheet now u = Inr s'
           \<and> length (rows s') = totalQuestions s'
           \<and> (\<forall>r \<in> set (rows s'). disabled r \<and> clearHidden r)
           \<and> map checked (rows s') = map checked (rows s)
           \<and> startTime s' = startTime s"
    if "rows u = rows s" "totalQuestions u = totalQuestions s" "startTime u = startTime s" for u
  proof -
    from that wf have "length (rows u) = totalQuestions u" by simp
    from gradeSheet_returns [OF this, of now] that wf show ?thesis by auto
  qed
  consider (mismatch) "?m \<noteq> []" "length ?m \<noteq> totalQuestions s"
    | (typed) "?m \<noteq> []" "length ?m = totalQuestions s"
    | (card) "?m = []" "key_count (answerKey s) > 0" "key_count (answerKey s) \<noteq> totalQuestions s"
    | (uploaded) "?m = []" "key_count (answerKey s) > 0" "key_count (answerKey s) = totalQuestions s"
    | (nokey) "?m = []" "key_count (answerKey s) = 0"
    by fastforce
  then show ?thesis
  proof cases
    case mismatch
    then have "handleCheckAnswers now s =
        Inr (s\<lparr>checkError := Some (LengthMismatch (length ?m) (totalQuestions s))\<rparr>)"
      by (simp add: handleCheckAnswers_def Let_def)
    with wf lk show ?thesis by simp
  next
    case typed
    then have "handleCheckAnswers now s = gradeSheet now ?t"
      by (simp add: handleCheckAnswers_def Let_def)
    with grade [of ?t] show ?thesis by simp
  next
    case card
    then have "handleCheckAnswers now s =
        Inr (s\<lparr>checkError := Some (KeyCardinalityMismatch (key_count (answerKey s)) (totalQuestions s))\<rparr>)"
      by (simp add: handleCheckAnswers_def Let_def)
    with wf lk show ?thesis by simp
  next
    case uploaded
    then have "handleCheckAnswers now s = gradeSheet now s"
      by (simp add: handleCheckAnswers_def Let_def)
    with grade [of s] show ?thesis by simp
  next
    case nokey
    then have "handleCheckAnswers now s = Inr (s\<lparr>confirmModal := True\<rparr>)"
      by (simp add: handleCheckAnswers_def Let_def)
    with wf lk show ?thesis by simp
  qed
qed

lemma apply_event_locked:
  assumes wf: "length (rows s) = totalQuestions s"
    and lk: "\<forall>r \<in> set (rows s). disabled r \<and> clearHidden r"
    and nr: "\<not> resets e"
  shows "\<exists>s'. apply_event e s = Inr s'
           \<and> length (rows s') = totalQuestions s'
           \<and> (\<forall>r \<in> set (rows s'). disabled r \<and> clearHidden r)
           \<and> map checked (rows s') = map checked (rows s)
           \<and> startTime s' = startTime s"
proof (cases e)
  case (Generate x)
  with nr show ?thesis by simp
next
  case Reset
  with nr show ?thesis by simp
next
  case (Check x)
  with handleCheckAnswers_locked [OF wf lk, of x] show ?thesis by simp
next
  case (ConfirmProceed x)
  with wf show ?thesis
    by (simp add: handleConfirmProceed_def stopTimer_def comp_def)
next
  case (UploadExcel data)
  with wf lk show ?thesis by (simp add: parse_rows_unchanged)
next
  case (UploadPdf content)
  with wf lk show ?thesis by (simp add: parse_rows_unchanged)
next
  case (SelectOption i v)
  have "selectOption i v s = s"
  proof (cases "get_row (rows s) i")
    case None
    then show ?thesis by (simp add: selectOption_def)
  next
    case (Some r)
    then have "r \<in> set (rows s)"
      by (auto simp: get_row_def split: if_splits)
    with lk have "disabled r" by simp
    with Some show ?thesis by (simp add: selectOption_def)
  qed
  with SelectOption wf lk show ?thesis by simp
next
  case (ClickClear i)
  have "clickClear i s = s"
  proof (cases "get_row (rows s) i")
    case None
    then show ?thesis by (simp add: clickClear_def)
  next
    case (Some r)
    then have "r \<in> set (rows s)"
      by (auto simp: get_row_def split: if_splits)
    with lk have "clearHidden r" by simp
    with Some show ?thesis by (simp add: clickClear_def)
  qed
  with ClickClear wf lk show ?thesis by simp
next
  case (TypeManualKey k)
  with wf lk show ?thesis by simp
qed

lemma run_locked:
  assumes "length (rows s) = totalQuestions s"
    and "\<forall>r \<in> set (rows s). disabled r \<and> clearHidden r"
    and "\<forall>e \<in> set evs. \<not> resets e"
  shows "\<exists>s'. run evs s = Inr s'
           \<and> length (rows s') = totalQuestions s'
           \<and> (\<forall>r \<in> set (rows s'). disabled r \<and> clearHidden r)
           \<and> map checked (rows s') = map checked (rows s)
           \<and> startTime s' = startTime s"
  using assms
proof (induction evs arbitrary: s)
  case Nil
  then show ?case by simp
next
  case (Cons e evs)
  from Cons.prems have "\<not> resets e" by simp
  from apply_event_locked [OF Cons.prems(1,2) this] obtain s1 where
    s1: "apply_event e s = Inr s1" "length (rows s1) = totalQuestions s1"
      "\<forall>r \<in> set (rows s1). disabled r \<and> clearHidden r"
      "map checked (rows s1) = map checked (rows s)" "startTime s1 = startTime s"
    by blast
  from Cons.prems have "\<forall>e \<in> set evs. \<not> resets e" by simp
  from Cons.IH [OF s1(2,3) this] s1 show ?case by simp
qed

lemmas handler_defs = handleCheckAnswers_def gradeSheet_def stopTimer_def grade_loop.simps
  manual_key_loop.simps get_row_def key_count_def selectOption_def clickClear_def
  clearSelection_def or_zero_def createQuestionRow_def init_def

lemma marked_sheet_fields:
  "length (rows marked_sheet) = totalQuestions marked_sheet"
  "map checked (rows marked_sheet) = [Some ''A'', None]"
  "startTime marked_sheet = 0"
  by (simp_all add: marked_sheet_def selectOption_def get_row_def uploaded_sheet_fields
      fresh_sheet_eq createQuestionRow_def init_def)

lemma digit_char:
  assumes "k < 10"
  shows "is_digit (''0123456789'' ! k)" and "digit_val (''0123456789'' ! k) = k"
    and "\<not> is_space (''0123456789'' ! k)" and "''0123456789'' ! k \<noteq> CHR ''-''"
    and "''0123456789'' ! k \<noteq> CHR ''+''"
proof -
  from assms consider "k = 0" | "k = 1" | "k = 2" | "k = 3" | "k = 4" | "k = 5" | "k = 6"
    | "k = 7" | "k = 8" | "k = 9"
    by atomize_elim arith
  then have "is_digit (''0123456789'' ! k) \<and> digit_val (''0123456789'' ! k) = k
    \<and> \<not> is_space (''0123456789'' ! k) \<and> ''0123456789'' ! k \<noteq> CHR ''-''
    \<and> ''0123456789'' ! k \<noteq> CHR ''+''"
    by cases (simp_all add: is_digit_def digit_val_def is_space_def)
  then show "is_digit (''0123456789'' ! k)" and "digit_val (''0123456789'' ! k) = k"
    and "\<not> is_space (''0123456789'' ! k)" and "''0123456789'' ! k \<noteq> CHR ''-''"
    and "''0123456789'' ! k \<noteq> CHR ''+''"
    by simp_all
qed

lemma digits_of_props:
  "digits_of n \<noteq> [] \<and> (\<forall>c \<in> set (digits_of n). is_digit c) \<and> digits_val (digits_of n) = n"
proof (induction n rule: digits_of.induct)
  case (1 n)
  show ?case
  proof (cases "n < 10")
    case True
    then have "digits_of n = [''0123456789'' ! n]" by (subst digits_of.simps) simp
    with digit_char [OF True] show ?thesis by (simp add: digits_val_def)
  next
    case False
    then have eq: "digits_of n = digits_of (n div 10) @ [''0123456789'' ! (n mod 10)]"
      by (subst digits_of.simps) simp
    have m: "n mod 10 < 10" by simp
    from "1.IH" [OF False] digit_char [OF m] show ?thesis
      unfolding eq by (simp add: digits_val_def)
  qed
qed

lemma parseInt_digits_of: "parseInt (digits_of n) = Some (int n)"
proof -
  from digits_of_props [of n] have ne: "digits_of n \<noteq> []"
    and dg: "\<forall>c \<in> set (digits_of n). is_digit c" and v: "digits_val (digits_of n) = n"
    by simp_all
  from ne dg have h: "is_digit (hd (digits_of n))" by simp
  then have hd: "\<not> is_space (hd (digits_of n))" "hd (digits_of n) \<noteq> CHR ''-''"
    "hd (digits_of n) \<noteq> CHR ''+''"
    by (auto simp: is_digit_def is_space_def)
  from hd(1) ne have d: "dropWhile is_space (digits_of n) = digits_of n"
    by (cases "digits_of n") simp_all
  from dg have t: "takeWhile is_digit (digits_of n) = digits_of n"
    by (simp add: takeWhile_eq_all_conv)
  show ?thesis
    by (simp add: parseInt_def Let_def d t ne v hd)
qed

section \<open>Every session keeps one row for each question\<close>

text \<open>
  Whatever events follow the loading of the page, each of them returns and the sheet has
  exactly \<open>totalQuestions\<close> rows afterwards. So the \<open>TypeError\<close> of the grading loop is
  never met in a session, and the hypothesis on the rows in the statements below holds in
  every state a session can reach.
\<close>

lemma handleCheckAnswers_rows:
  assumes wf: "length (rows s) = totalQuestions s"
  shows "\<exists>s'. handleCheckAnswers now s = Inr s' \<and> length (rows s') = totalQuestions s'"
proof -
  let ?m = "toUpperCase (trim (manualKeyInput s))"
  let ?t = "s\<lparr>answerKey := manual_key_loop ?m 0 []\<rparr>"
  have grade: "\<exists>s'. gradeSheet now u = Inr s' \<and> length (rows s') = totalQuestions s'"
    if "rows u = rows s" "totalQuestions u = totalQuestions s" for u
  proof -
    from that wf have "length (rows u) = totalQuestions u" by simp
    from gradeSheet_returns [OF this, of now] that wf show ?thesis by auto
  qed
  from grade [of ?t] grade [of s] wf show ?thesis
    by (auto simp: handleCheckAnswers_def Let_def)
qed

lemma apply_event_rows:
  assumes wf: "length (rows s) = totalQuestions s"
  shows "\<exists>s'. apply_event e s = Inr s' \<and> length (rows s') = totalQuestions s'"
proof (cases e)
  case (Generate x)
  with wf show ?thesis
    by (auto simp: generateOMRSheet_def startTimer_def resetOMRState_def split: option.split)
next
  case Reset
  then show ?thesis by (simp add: resetEverything_def resetOMRState_def)
next
  case (Check x)
  with handleCheckAnswers_rows [OF wf, of x] show ?thesis by simp
next
  case (ConfirmProceed x)
  with wf show ?thesis by (simp add: handleConfirmProceed_def stopTimer_def)
next
  case (UploadExcel data)
  with wf show ?thesis by (simp add: parse_rows_unchanged)
next
  case (UploadPdf content)
  with wf show ?thesis by (simp add: parse_rows_unchanged)
next
  case (SelectOption i v)
  with wf show ?thesis by (simp add: selectOption_def split: option.split)
next
  case (ClickClear i)
  with wf show ?thesis by (simp add: clickClear_def clearSelection_def split: option.split)
next
  case (TypeManualKey k)
  with wf show ?thesis by simp
qed

lemma run_rows:
  "length (rows s) = totalQuestions s \<Longrightarrow>
   \<exists>s'. run evs s = Inr s' \<and> length (rows s') = totalQuestions s'"
proof (induction evs arbitrary: s)
  case Nil
  then show ?case by simp
next
  case (Cons e evs)
  from apply_event_rows [OF Cons.prems, of e] obtain s1 where
    "apply_event e s = Inr s1" "length (rows s1) = totalQuestions s1"
    by blast
  with Cons.IH [of s1] show ?case by simp
qed

lemma session_rows:
  "\<exists>s. run evs init = Inr s \<and> length (rows s) = totalQuestions s"
  by (rule run_rows) (simp add: init_def)

section \<open>Grading a sheet\<close>

text \<open>
  C1. On a sheet whose rows are the questions 1 to \<open>totalQuestions\<close>, \<open>gradeSheet\<close> returns,
  and for every question \<open>i\<close> of that range the row is left without a class when no option
  is checked (unanswered), gets the class \<open>correct\<close> when the checked option equals
  \<open>answerKey[i]\<close>, and the class \<open>incorrect\<close> otherwise. The three counters shown are the
  numbers of questions of each kind. With \<open>correctMarks\<close> set, the score shown is
  \<open>correct * correctMarks + incorrect * (wrongMarks or 0)\<close> out of
  \<open>totalQuestions * correctMarks\<close>, each product and the sum being the double nearest to
  the exact result (\<open>num_mul\<close>, \<open>num_add\<close>), not the exact result itself. On the sample
  sheet this gives 1 correct, 1 incorrect, 1 unanswered, score 1 out of 6.
\<close>

theorem gradeSheet_classifies:
  assumes "length (rows s) = totalQuestions s"
  shows "(\<exists>s' r. gradeSheet now s = Inr s' \<and> results s' = Some r
           \<and> (\<forall>i. 1 \<le> i \<and> i \<le> totalQuestions s \<longrightarrow>
                 rowClass (rows s' ! (i - 1)) =
                   (case checked (rows s ! (i - 1)) of
                      None \<Rightarrow> None
                    | Some v \<Rightarrow> if map_of (answerKey s) (int i) = Some v then Some Correct
                               else Some Incorrect))
           \<and> unansweredCount r =
               card {i \<in> {1..totalQuestions s}. checked (rows s ! (i - 1)) = None}
           \<and> correctCount r =
               card {i \<in> {1..totalQuestions s}.
                     \<exists>v. checked (rows s ! (i - 1)) = Some v \<and> map_of (answerKey s) (int i) = Some v}
           \<and> incorrectCount r =
               card {i \<in> {1..totalQuestions s}.
                     \<exists>v. checked (rows s ! (i - 1)) = Some v \<and> map_of (answerKey s) (int i) \<noteq> Some v}
           \<and> (\<forall>cm. correctMarks s = Some cm \<longrightarrow>
                 scoreShown r =
                   Marks (num_add
                            (num_mul (Fin (of_nat (correctCount r))) cm)
                            (num_mul (Fin (of_nat (incorrectCount r)))
                               (case wrongMarks s of
                                  None \<Rightarrow> Fin 0
                                | Some w \<Rightarrow> if num_falsy w then Fin 0 else w)))
                         (num_mul (Fin (of_nat (totalQuestions s))) cm)))
         \<and> (\<exists>s'. gradeSheet now sample_sheet = Inr s'
                \<and> results s' = Some \<lparr>correctCount = 1, incorrectCount = 1, unansweredCount = 1,
                                     scoreShown = Marks (Fin 1) (Fin 6)\<rparr>)"
proof -
  have oz: "or_zero w = (case w of None \<Rightarrow> Fin 0 | Some v \<Rightarrow> if num_falsy v then Fin 0 else v)"
    for w
    by (simp add: or_zero_def)
  from gradeSheet_spec [OF assms, of now] obtain rs s' where
    s': "gradeSheet now s = Inr s'"
    and res: "results s' = Some
                 \<lparr> correctCount = card {j \<in> {1..totalQuestions s}. \<exists>v. checked (rows s ! (j - 1)) = Some v
                                          \<and> map_of (answerKey s) (int j) = Some v},
                   incorrectCount = card {j \<in> {1..totalQuestions s}. \<exists>v. checked (rows s ! (j - 1)) = Some v
                                          \<and> map_of (answerKey s) (int j) \<noteq> Some v},
                   unansweredCount = card {j \<in> {1..totalQuestions s}. checked (rows s ! (j - 1)) = None},
                   scoreShown =
                     (case correctMarks s of
                        Some cm \<Rightarrow>
                          Marks (num_add
                                   (num_mul (Fin (of_nat (card {j \<in> {1..totalQuestions s}. \<exists>v. checked (rows s ! (j - 1)) = Some v
                                          \<and> map_of (answerKey s) (int j) = Some v}))) cm)
                                   (num_mul (Fin (of_nat (card {j \<in> {1..totalQuestions s}. \<exists>v. checked (rows s ! (j - 1)) = Some v
                                          \<and> map_of (answerKey s) (int j) \<noteq> Some v}))) (or_zero (wrongMarks s))))
                                (num_mul (Fin (of_nat (totalQuestions s))) cm)
                      | None \<Rightarrow> RawCount (card {j \<in> {1..totalQuestions s}. \<exists>v. checked (rows s ! (j - 1)) = Some v
                                          \<and> map_of (answerKey s) (int j) = Some v}) (totalQuestions s)) \<rparr>"
    and rows': "rows s' = rs"
    and nth: "\<forall>j. 1 \<le> j \<and> j \<le> totalQuestions s \<longrightarrow>
            rs ! (j - 1) = graded_row (answerKey s) j (rows s ! (j - 1))"
    by fastforce
  have cls: "rowClass (rows s' ! (i - 1)) =
                   (case checked (rows s ! (i - 1)) of
                      None \<Rightarrow> None
                    | Some v \<Rightarrow> if map_of (answerKey s) (int i) = Some v then Some Correct
                               else Some Incorrect)"
    if "1 \<le> i \<and> i \<le> totalQuestions s" for i
    using nth that by (simp add: rows' graded_row_def)
  have general: "\<exists>s' r. gradeSheet now s = Inr s' \<and> results s' = Some r
           \<and> (\<forall>i. 1 \<le> i \<and> i \<le> totalQuestions s \<longrightarrow>
                 rowClass (rows s' ! (i - 1)) =
                   (case checked (rows s ! (i - 1)) of
                      None \<Rightarrow> None
                    | Some v \<Rightarrow> if map_of (answerKey s) (int i) = Some v then Some Correct
                               else Some Incorrect))
           \<and> unansweredCount r =
               card {i \<in> {1..totalQuestions s}. checked (rows s ! (i - 1)) = None}
           \<and> correctCount r =
               card {i \<in> {1..totalQuestions s}.
                     \<exists>v. checked (rows s ! (i - 1)) = Some v \<and> map_of (answerKey s) (int i) = Some v}
           \<and> incorrectCount r =
               card {i \<in> {1..totalQuestions s}.
                     \<exists>v. checked (rows s ! (i - 1)) = Some v \<and> map_of (answerKey s) (int i) \<noteq> Some v}
           \<and> (\<forall>cm. correctMarks s = Some cm \<longrightarrow>
                 scoreShown r =
                   Marks (num_add
                            (num_mul (Fin (of_nat (correctCount r))) cm)
                            (num_mul (Fin (of_nat (incorrectCount r)))
                               (case wrongMarks s of
                                  None \<Rightarrow> Fin 0
                                | Some w \<Rightarrow> if num_falsy w then Fin 0 else w)))
                         (num_mul (Fin (of_nat (totalQuestions s))) cm))"
    apply (rule exI [of _ s'])
    apply (rule exI)
    apply (intro conjI)
          apply (rule s')
         apply (rule res)
    using cls apply blast
       apply simp
      apply simp
     apply simp
    apply (simp add: oz)
    done
  have "\<exists>s'. gradeSheet now sample_sheet = Inr s'
                \<and> results s' = Some \<lparr>correctCount = 1, incorrectCount = 1, unansweredCount = 1,
                                     scoreShown = Marks (Fin 1) (Fin 6)\<rparr>"
    by (simp add: gradeSheet_sample)
  with general show ?thesis by (rule conjI)
qed

text \<open>The sample sheet satisfies the hypothesis of C1, and the theorem grades it.\<close>

theorem gradeSheet_classifies_witness:
  "length (rows sample_sheet) = totalQuestions sample_sheet
   \<and> (\<exists>s' r. gradeSheet 0 sample_sheet = Inr s' \<and> results s' = Some r
         \<and> rowClass (rows s' ! 0) = Some Correct
         \<and> rowClass (rows s' ! 1) = Some Incorrect
         \<and> rowClass (rows s' ! 2) = None
         \<and> scoreShown r =
             Marks (num_add (num_mul (Fin (of_nat (correctCount r))) (Fin 2))
                            (num_mul (Fin (of_nat (incorrectCount r))) (Fin (- 1))))
                   (Fin 6))"
proof -
  have h: "length (rows sample_sheet) = totalQuestions sample_sheet"
    by (simp add: sample_sheet_def init_def)
  have c: "correctMarks sample_sheet = Some (Fin 2)" "wrongMarks sample_sheet = Some (Fin (- 1))"
    "totalQuestions sample_sheet = 3" "answerKey sample_sheet = [(1, ''A''), (2, ''B''), (3, ''C'')]"
    "rows sample_sheet = [createQuestionRow\<lparr>checked := Some ''A''\<rparr>,
                    createQuestionRow\<lparr>checked := Some ''C''\<rparr>,
                    createQuestionRow]"
    by (simp_all add: sample_sheet_def init_def)
  from gradeSheet_classifies [OF h, of 0] obtain s' r where
    g: "gradeSheet 0 sample_sheet = Inr s'" "results s' = Some r"
    and cls: "\<forall>i. 1 \<le> i \<and> i \<le> totalQuestions sample_sheet \<longrightarrow>
                 rowClass (rows s' ! (i - 1)) =
                   (case checked (rows sample_sheet ! (i - 1)) of
                      None \<Rightarrow> None
                    | Some v \<Rightarrow> if map_of (answerKey sample_sheet) (int i) = Some v then Some Correct
                               else Some Incorrect)"
    and sc: "\<forall>cm. correctMarks sample_sheet = Some cm \<longrightarrow>
                 scoreShown r =
                   Marks (num_add
                            (num_mul (Fin (of_nat (correctCount r))) cm)
                            (num_mul (Fin (of_nat (incorrectCount r)))
                               (case wrongMarks sample_sheet of
                                  None \<Rightarrow> Fin 0
                                | Some w \<Rightarrow> if num_falsy w then Fin 0 else w)))
                         (num_mul (Fin (of_nat (totalQuestions sample_sheet))) cm)"
    by blast
  from cls [rule_format, of 1] cls [rule_format, of 2] cls [rule_format, of 3]
  have "rowClass (rows s' ! 0) = Some Correct" "rowClass (rows s' ! 1) = Some Incorrect"
    "rowClass (rows s' ! 2) = None"
    by (simp_all add: c createQuestionRow_def)
  moreover from sc c have "scoreShown r =
             Marks (num_add (num_mul (Fin (of_nat (correctCount r))) (Fin 2))
                            (num_mul (Fin (of_nat (incorrectCount r))) (Fin (- 1))))
                   (Fin 6)"
    by (simp add: fl_small)
  ultimately show ?thesis using h g by blast
qed

text \<open>
  C1 read with exact products and sums fails on the sheet of three questions at 0.1
  marks, all answered correctly. Three times the stored mark is
  \<open>10808639105689191 / 2^55\<close>, which is no double; the total and the maximum shown are the
  double next to it, \<open>1351079888211149 / 2^52\<close> (printed 0.30000000000000004), and neither
  is 3 times a tenth.
\<close>

theorem score_rounds_to_double:
  "fl (1 / 10) = Fin (3602879701896397 / 36028797018963968)
   \<and> map_sum id (map_option correctCount \<circ> results) (gradeSheet 0 tenth_sheet) = Inr (Some 3)
   \<and> map_sum id (map_option incorrectCount \<circ> results) (gradeSheet 0 tenth_sheet) = Inr (Some 0)
   \<and> map_sum id (map_option scoreShown \<circ> results) (gradeSheet 0 tenth_sheet)
       = Inr (Some (Marks (Fin (1351079888211149 / 4503599627370496))
                          (Fin (1351079888211149 / 4503599627370496))))
   \<and> (1351079888211149 / 4503599627370496 :: rat)
       \<noteq> 3 * (3602879701896397 / 36028797018963968) + 0 * 0
   \<and> (1351079888211149 / 4503599627370496 :: rat) \<noteq> 3 * (1 / 10)"
proof -
  have m: "num_mul (Fin 3) (Fin (3602879701896397 / 36028797018963968))
             = Fin (1351079888211149 / 4503599627370496)"
    by (simp add: num_simps)
  have a: "num_add (Fin (1351079888211149 / 4503599627370496)) (Fin 0)
             = Fin (1351079888211149 / 4503599627370496)"
    by (simp add: num_simps)
  have z: "num_mul (Fin 0) (Fin 0) = Fin 0" by (simp add: fl_def)
  have g: "gradeSheet 0 tenth_sheet =
     Inr (tenth_sheet
            \<lparr> timerRunning := False, timeTaken := Some 0, checkError := None, isGraded := True,
              rows := [\<lparr>checked = Some ''A'', disabled = True, clearHidden = True,
                         rowClass = Some Correct\<rparr>,
                       \<lparr>checked = Some ''A'', disabled = True, clearHidden = True,
                         rowClass = Some Correct\<rparr>,
                       \<lparr>checked = Some ''A'', disabled = True, clearHidden = True,
                         rowClass = Some Correct\<rparr>],
              results := Some \<lparr>correctCount = 3, incorrectCount = 0, unansweredCount = 0,
                               scoreShown = Marks (Fin (1351079888211149 / 4503599627370496))
                          (Fin (1351079888211149 / 4503599627370496))\<rparr> \<rparr>)"
    by (simp add: gradeSheet_def stopTimer_def tenth_sheet_def init_def createQuestionRow_def
      grade_loop.simps get_row_def or_zero_def Let_def m a z del: num_mul.simps num_add.simps)
  show ?thesis
    by (simp add: g fl_small)
qed

section \<open>Generating a sheet\<close>

text \<open>
  C2, as the script behaves. The question count is what \<open>parseInt\<close> reads from the count
  field: the digits the text starts with, after white space and a sign. When it is an
  integer from 1 to 200, \<open>generateOMRSheet\<close> shows no error and the sheet consists of
  exactly that many fresh rows, none of them answered; every integer from 1 to 200 is
  read from its decimal numeral, so each of them can be asked for. When it is NaN or lies outside
  1 to 200, the only effect is the message "Please enter a number between 1 and 200.":
  every other component of the state, the rows and \<open>totalQuestions\<close> among them, is what it
  was, so an empty sheet stays empty.
\<close>

theorem generateOMRSheet_count:
  "(\<forall>n. parseInt (questionCountInput s) = Some n \<and> 1 \<le> n \<and> n \<le> 200 \<longrightarrow>
       configError (generateOMRSheet now s) = None
       \<and> totalQuestions (generateOMRSheet now s) = nat n
       \<and> rows (generateOMRSheet now s) = replicate (nat n) createQuestionRow
       \<and> map checked (rows (generateOMRSheet now s)) = replicate (nat n) None)
   \<and> (\<forall>k. 1 \<le> k \<and> k \<le> 200 \<longrightarrow>
       configError (generateOMRSheet now (s\<lparr>questionCountInput := digits_of k\<rparr>)) = None
       \<and> map checked (rows (generateOMRSheet now (s\<lparr>questionCountInput := digits_of k\<rparr>)))
           = replicate k None)
   \<and> ((\<forall>n. parseInt (questionCountInput s) = Some n \<longrightarrow> n < 1 \<or> 200 < n) \<longrightarrow>
       generateOMRSheet now s = s\<lparr>configError := Some ConfigInvalid\<rparr>
       \<and> rows (generateOMRSheet now s) = rows s
       \<and> totalQuestions (generateOMRSheet now s) = totalQuestions s)"
proof -
  have valid: "configError (generateOMRSheet now u) = None
       \<and> totalQuestions (generateOMRSheet now u) = nat n
       \<and> rows (generateOMRSheet now u) = replicate (nat n) createQuestionRow
       \<and> map checked (rows (generateOMRSheet now u)) = replicate (nat n) None"
    if "parseInt (questionCountInput u) = Some n" "1 \<le> n" "n \<le> 200" for u n
    using that
    by (simp add: generateOMRSheet_def startTimer_def resetOMRState_def createQuestionRow_def)
  have decimal: "configError (generateOMRSheet now (s\<lparr>questionCountInput := digits_of k\<rparr>)) = None
       \<and> map checked (rows (generateOMRSheet now (s\<lparr>questionCountInput := digits_of k\<rparr>)))
           = replicate k None"
    if "1 \<le> k \<and> k \<le> 200" for k
    using valid [of "s\<lparr>questionCountInput := digits_of k\<rparr>" "int k"] that
    by (simp add: parseInt_digits_of createQuestionRow_def)
  have invalid: "generateOMRSheet now s = s\<lparr>configError := Some ConfigInvalid\<rparr>
       \<and> rows (generateOMRSheet now s) = rows s
       \<and> totalQuestions (generateOMRSheet now s) = totalQuestions s"
    if "\<forall>n. parseInt (questionCountInput s) = Some n \<longrightarrow> n < 1 \<or> 200 < n"
    using that
    by (cases "parseInt (questionCountInput s)") (auto simp: generateOMRSheet_def)
  from valid decimal invalid show ?thesis by blast
qed

text \<open>C2 at the inputs "3", "2" (the decimal numeral of 2), "0", "201" and "abc".\<close>

theorem generateOMRSheet_count_witness:
  "parseInt ''3'' = Some 3
   \<and> rows (generateOMRSheet 0 (init\<lparr>questionCountInput := ''3''\<rparr>))
       = [createQuestionRow, createQuestionRow, createQuestionRow]
   \<and> digits_of 2 = ''2''
   \<and> map checked (rows (generateOMRSheet 0 (init\<lparr>questionCountInput := ''2''\<rparr>))) = [None, None]
   \<and> parseInt ''0'' = Some 0
   \<and> generateOMRSheet 0 (init\<lparr>questionCountInput := ''0''\<rparr>)
       = init\<lparr>questionCountInput := ''0'', configError := Some ConfigInvalid\<rparr>
   \<and> parseInt ''201'' = Some 201
   \<and> generateOMRSheet 0 (init\<lparr>questionCountInput := ''201''\<rparr>)
       = init\<lparr>questionCountInput := ''201'', configError := Some ConfigInvalid\<rparr>
   \<and> parseInt ''abc'' = None
   \<and> generateOMRSheet 0 (init\<lparr>questionCountInput := ''abc''\<rparr>)
       = init\<lparr>questionCountInput := ''abc'', configError := Some ConfigInvalid\<rparr>
   \<and> rows (generateOMRSheet 0 (init\<lparr>questionCountInput := ''abc''\<rparr>)) = []"
proof -
  have p3: "parseInt ''3'' = Some 3" and p0: "parseInt ''0'' = Some 0"
    and p201: "parseInt ''201'' = Some 201" and pabc: "parseInt ''abc'' = None"
    by (simp_all add: text_simps)
  have d2: "digits_of 2 = ''2''" by (simp add: digits_of.simps)
  note t3 = generateOMRSheet_count [of "init\<lparr>questionCountInput := ''3''\<rparr>" 0, THEN conjunct1]
  note t2 = generateOMRSheet_count [of init 0, THEN conjunct2, THEN conjunct1, rule_format, of 2]
  note t0 = generateOMRSheet_count [of "init\<lparr>questionCountInput := ''0''\<rparr>" 0,
      THEN conjunct2, THEN conjunct2]
  note t201 = generateOMRSheet_count [of "init\<lparr>questionCountInput := ''201''\<rparr>" 0,
      THEN conjunct2, THEN conjunct2]
  note tabc = generateOMRSheet_count [of "init\<lparr>questionCountInput := ''abc''\<rparr>" 0,
      THEN conjunct2, THEN conjunct2]
  have a: "rows (generateOMRSheet 0 (init\<lparr>questionCountInput := ''3''\<rparr>))
       = [createQuestionRow, createQuestionRow, createQuestionRow]"
    using t3 by (simp add: p3 numeral_3_eq_3)
  have b: "map checked (rows (generateOMRSheet 0 (init\<lparr>questionCountInput := ''2''\<rparr>))) = [None, None]"
    using t2 [unfolded d2] by (simp add: numeral_2_eq_2)
  have c: "generateOMRSheet 0 (init\<lparr>questionCountInput := ''0''\<rparr>)
       = init\<lparr>questionCountInput := ''0'', configError := Some ConfigInvalid\<rparr>"
    using t0 by (simp add: p0)
  have d: "generateOMRSheet 0 (init\<lparr>questionCountInput := ''201''\<rparr>)
       = init\<lparr>questionCountInput := ''201'', configError := Some ConfigInvalid\<rparr>"
    using t201 by (simp add: p201)
  have e: "generateOMRSheet 0 (init\<lparr>questionCountInput := ''abc''\<rparr>)
       = init\<lparr>questionCountInput := ''abc'', configError := Some ConfigInvalid\<rparr>"
    "rows (generateOMRSheet 0 (init\<lparr>questionCountInput := ''abc''\<rparr>)) = []"
    using tabc by (simp_all add: pabc init_def)
  show ?thesis
    by (intro conjI) (rule p3 a d2 b p0 c p201 d pabc e)+
qed

text \<open>
  C2 as stated fails for inputs that start with digits. The text "1e3" denotes 1000, a
  count outside 1 to 200, and "12abc" is no number; \<open>parseInt\<close> reads 1 and 12 from them,
  and \<open>generateOMRSheet\<close> builds a sheet of 1 row and of 12 rows without any message.
\<close>

theorem generateOMRSheet_reads_prefix:
  "parseInt ''1e3'' = Some 1
   \<and> configError (generateOMRSheet 0 (init\<lparr>questionCountInput := ''1e3''\<rparr>)) = None
   \<and> totalQuestions (generateOMRSheet 0 (init\<lparr>questionCountInput := ''1e3''\<rparr>)) = 1
   \<and> rows (generateOMRSheet 0 (init\<lparr>questionCountInput := ''1e3''\<rparr>)) = [createQuestionRow]
   \<and> parseInt ''12abc'' = Some 12
   \<and> configError (generateOMRSheet 0 (init\<lparr>questionCountInput := ''12abc''\<rparr>)) = None
   \<and> totalQuestions (generateOMRSheet 0 (init\<lparr>questionCountInput := ''12abc''\<rparr>)) = 12
   \<and> length (rows (generateOMRSheet 0 (init\<lparr>questionCountInput := ''12abc''\<rparr>))) = 12"
proof -
  have p: "parseInt ''1e3'' = Some 1" "parseInt ''12abc'' = Some 12"
    by (simp_all add: text_simps)
  show ?thesis
    by (simp add: p generateOMRSheet_def startTimer_def resetOMRState_def init_def
        createQuestionRow_def)
qed

section \<open>Answer keys from spreadsheet rows\<close>

text \<open>
  C4, as the script behaves. A row is accepted, as the entry question \<open>q\<close> with letter
  \<open>a\<close>, exactly when \<open>parseInt\<close> reads the integer \<open>q\<close> from column 0 and column 1,
  trimmed of surrounding white space and put in upper case, is \<open>a\<close> and is one of A, B, C,
  D. Other rows are skipped and the loop goes on: the number of answers counted is the
  number of accepted rows, and the key read is the accepted rows with a later row
  overriding an earlier one for the same question. With at least one accepted row the
  key is stored; with none the only effect is the message "Could not find valid answers in
  the Excel file.". The rows [1, "a"], ["x", "B"], [2, "c"] give the key 1:A, 2:C and the
  count 2.
\<close>

theorem parseAnswerKeyFromExcel_rows:
  "(\<forall>q a. excel_row r = Some (q, a) \<longleftrightarrow>
        parseInt (String_js (col r 0)) = Some q
        \<and> a = toUpperCase (trim (String_js (col r 1)))
        \<and> a \<in> set [''A'', ''B'', ''C'', ''D''])
   \<and> snd (excel_rows data [] 0) = length (filter (\<lambda>r. excel_row r \<noteq> None) data)
   \<and> map_of (fst (excel_rows data [] 0)) = map_of (rev (List.map_filter excel_row data))
   \<and> ((\<exists>r \<in> set data. excel_row r \<noteq> None) \<longrightarrow>
        parseAnswerKeyFromExcel data s =
          s\<lparr> answerKey := fst (excel_rows data [] 0), manualKeyInput := [], checkError := None,
             statusMessage :=
               Some (AnswersLoaded (length (filter (\<lambda>r. excel_row r \<noteq> None) data))) \<rparr>)
   \<and> ((\<forall>r \<in> set data. excel_row r = None) \<longrightarrow>
        parseAnswerKeyFromExcel data s = s\<lparr>checkError := Some (NoValidEntries Excel)\<rparr>)
   \<and> excel_rows [[Num 1, Str ''a''], [Str ''x'', Str ''B''], [Num 2, Str ''c'']] [] 0
       = ([(1, ''A''), (2, ''C'')], 2)"
proof (intro conjI allI impI)
  fix q a
  show "excel_row r = Some (q, a) \<longleftrightarrow>
        parseInt (String_js (col r 0)) = Some q
        \<and> a = toUpperCase (trim (String_js (col r 1)))
        \<and> a \<in> set [''A'', ''B'', ''C'', ''D'']"
    by (cases "parseInt (String_js (col r 0))") (auto simp: excel_row_def Let_def)
next
  show "snd (excel_rows data [] 0) = length (filter (\<lambda>r. excel_row r \<noteq> None) data)"
    by (simp add: excel_rows_count)
next
  show "map_of (fst (excel_rows data [] 0)) = map_of (rev (List.map_filter excel_row data))"
    by (simp add: excel_rows_map)
next
  assume "\<exists>r \<in> set data. excel_row r \<noteq> None"
  then have ne: "filter (\<lambda>r. excel_row r \<noteq> None) data \<noteq> []"
    by (simp add: filter_empty_conv)
  obtain k n where kn: "excel_rows data [] 0 = (k, n)"
    by (cases "excel_rows data [] 0")
  with excel_rows_count [of data "[]" 0]
  have n: "n = length (filter (\<lambda>r. excel_row r \<noteq> None) data)" by simp
  with ne have "0 < n" by simp
  then show "parseAnswerKeyFromExcel data s =
          s\<lparr> answerKey := fst (excel_rows data [] 0), manualKeyInput := [], checkError := None,
             statusMessage :=
               Some (AnswersLoaded (length (filter (\<lambda>r. excel_row r \<noteq> None) data))) \<rparr>"
    unfolding n [symmetric] by (simp add: parseAnswerKeyFromExcel_def kn)
next
  assume "\<forall>r \<in> set data. excel_row r = None"
  then have "filter (\<lambda>r. excel_row r \<noteq> None) data = []"
    by (simp add: filter_empty_conv)
  then have "snd (excel_rows data [] 0) = 0"
    by (simp add: excel_rows_count)
  then obtain k where "excel_rows data [] 0 = (k, 0)"
    by (cases "excel_rows data [] 0") simp
  then show "parseAnswerKeyFromExcel data s = s\<lparr>checkError := Some (NoValidEntries Excel)\<rparr>"
    by (simp add: parseAnswerKeyFromExcel_def)
next
  show "excel_rows [[Num 1, Str ''a''], [Str ''x'', Str ''B''], [Num 2, Str ''c'']] [] 0
       = ([(1, ''A''), (2, ''C'')], 2)"
    by (rule excel_example)
qed

text \<open>
  C4 amended, on the row [1, "a"], on the three rows of the example, and on the single
  malformed row ["x", "B"].
\<close>

theorem parseAnswerKeyFromExcel_rows_witness:
  "excel_row [Num 1, Str ''a''] = Some (1, ''A'')
   \<and> parseInt (String_js (col [Num 1, Str ''a''] 0)) = Some 1
   \<and> toUpperCase (trim (String_js (col [Num 1, Str ''a''] 1))) = ''A''
   \<and> excel_row [Str ''x'', Str ''B''] = None
   \<and> parseAnswerKeyFromExcel [[Num 1, Str ''a''], [Str ''x'', Str ''B''], [Num 2, Str ''c'']]
        (fresh_sheet\<lparr>manualKeyInput := ''AB''\<rparr>)
       = fresh_sheet\<lparr> manualKeyInput := ''AB'', answerKey := [(1, ''A''), (2, ''C'')],
                      manualKeyInput := [], checkError := None,
                      statusMessage := Some (AnswersLoaded 2) \<rparr>
   \<and> parseAnswerKeyFromExcel [[Str ''x'', Str ''B'']] fresh_sheet
       = fresh_sheet\<lparr>checkError := Some (NoValidEntries Excel)\<rparr>"
proof -
  let ?data = "[[Num 1, Str ''a''], [Str ''x'', Str ''B''], [Num 2, Str ''c'']]"
  note t1 = parseAnswerKeyFromExcel_rows [of "[Num 1, Str ''a'']" ?data
      "fresh_sheet\<lparr>manualKeyInput := ''AB''\<rparr>"]
  note t2 = parseAnswerKeyFromExcel_rows [of "[Str ''x'', Str ''B'']" "[[Str ''x'', Str ''B'']]"
      fresh_sheet]
  have a: "parseInt (String_js (col [Num 1, Str ''a''] 0)) = Some 1"
    "toUpperCase (trim (String_js (col [Num 1, Str ''a''] 1))) = ''A''"
    by (simp_all add: String_js_def col_def digits_of.simps text_simps)
  have b: "excel_row [Num 1, Str ''a''] = Some (1, ''A'')"
    using t1 a by simp
  have c: "parseAnswerKeyFromExcel ?data (fresh_sheet\<lparr>manualKeyInput := ''AB''\<rparr>)
       = fresh_sheet\<lparr> manualKeyInput := ''AB'', answerKey := [(1, ''A''), (2, ''C'')],
                      manualKeyInput := [], checkError := None,
                      statusMessage := Some (AnswersLoaded 2) \<rparr>"
    using t1 by (simp add: excel_row_cases)
  have d: "parseAnswerKeyFromExcel [[Str ''x'', Str ''B'']] fresh_sheet
       = fresh_sheet\<lparr>checkError := Some (NoValidEntries Excel)\<rparr>"
    using t2 by (simp add: excel_row_cases)
  show ?thesis
    by (intro conjI) (rule a b c d excel_row_cases(2))+
qed

text \<open>
  C4 as stated fails. The row [1, " a "] is accepted, with the letter A, although its
  column 1 put in upper case is " A ", which is none of A, B, C, D: line 537 trims the
  text before comparing it.
\<close>

theorem excel_row_untrimmed_letter:
  "excel_row [Num 1, Str '' a ''] = Some (1, ''A'')
   \<and> parseInt (String_js (col [Num 1, Str '' a ''] 0)) = Some 1
   \<and> toUpperCase (String_js (col [Num 1, Str '' a ''] 1)) = '' A ''
   \<and> '' A '' \<notin> set [''A'', ''B'', ''C'', ''D'']"
  by (simp add: excel_row_def String_js_def col_def digits_of.simps text_simps)

section \<open>Answer keys from free text\<close>

text \<open>
  C5 on the text of the specification's example, "1. A 2: b 3-C 10 D": the regular
  expression has no \<open>i\<close> flag, so "2: b" is not a match, although line 561 upper-cases the
  letter it found. The key read is 1:A, 3:C, 10:D, question 2 has no entry, and 3 answers
  are reported as loaded.
\<close>

theorem parseAnswerKeyFromText_lowercase_letter:
  "answerKey (parseAnswerKeyFromText ''1. A 2: b 3-C 10 D'' init)
     = [(1, ''A''), (3, ''C''), (10, ''D'')]
   \<and> map_of (answerKey (parseAnswerKeyFromText ''1. A 2: b 3-C 10 D'' init)) 2 = None
   \<and> statusMessage (parseAnswerKeyFromText ''1. A 2: b 3-C 10 D'' init) = Some (AnswersLoaded 3)"
proof -
  have "text_loop ''1. A 2: b 3-C 10 D'' [] 0 = ([(1, ''A''), (3, ''C''), (10, ''D'')], 3)"
    by (simp add: text_loop.simps match_here_def text_simps)
  then show ?thesis
    by (simp add: parseAnswerKeyFromText_def)
qed

section \<open>The marking scheme\<close>

text \<open>
  C7. With \<open>correctMarks\<close> unset (\<open>null\<close>), \<open>gradeSheet\<close> shows the raw count: the number
  of correctly answered questions of the sheet over \<open>totalQuestions\<close>, and no marks.
  \<open>generateOMRSheet\<close> stores the correct-marks field as it is and the wrong-marks field
  negated when it is positive, unchanged otherwise, so that what is stored after
  generating is never positive. With both marks stored, \<open>gradeSheet\<close> multiplies the number
  of incorrectly answered questions of the sheet by the stored wrong marks as they are,
  whatever their sign (0 and NaN count as 0), and adds the number of correctly answered
  questions times the correct marks; the products and the sum are those of the Numbers.
\<close>

theorem marking_scheme:
  "(length (rows s) = totalQuestions s \<and> correctMarks s = None \<longrightarrow>
      (\<exists>s' r. gradeSheet now s = Inr s' \<and> results s' = Some r
          \<and> scoreShown r =
              RawCount (card {i \<in> {1..totalQuestions s}.
                              \<exists>v. checked (rows s ! (i - 1)) = Some v
                                  \<and> map_of (answerKey s) (int i) = Some v})
                       (totalQuestions s)))
   \<and> (\<forall>n. parseInt (questionCountInput s) = Some n \<and> 1 \<le> n \<and> n \<le> 200 \<longrightarrow>
          correctMarks (generateOMRSheet now s) = correctMarksInput s
          \<and> wrongMarks (generateOMRSheet now s) =
              (case wrongMarksInput s of
                 None \<Rightarrow> None
               | Some w \<Rightarrow> Some (if num_positive w then num_neg w else w)))
   \<and> (\<forall>n w. parseInt (questionCountInput s) = Some n \<and> 1 \<le> n \<and> n \<le> 200
            \<and> wrongMarksInput s = Some w \<and> num_positive w \<longrightarrow>
          wrongMarks (generateOMRSheet now s) = Some (num_neg w))
   \<and> (\<forall>n w. parseInt (questionCountInput s) = Some n \<and> 1 \<le> n \<and> n \<le> 200
            \<and> wrongMarks (generateOMRSheet now s) = Some w \<longrightarrow> \<not> num_positive w)
   \<and> (\<forall>cm w. length (rows s) = totalQuestions s \<and> correctMarks s = Some cm
            \<and> wrongMarks s = Some w \<longrightarrow>
          (\<exists>s' r. gradeSheet now s = Inr s' \<and> results s' = Some r
              \<and> scoreShown r =
                  Marks (num_add
                           (num_mul
                              (Fin (of_nat (card {i \<in> {1..totalQuestions s}.
                                    \<exists>v. checked (rows s ! (i - 1)) = Some v
                                        \<and> map_of (answerKey s) (int i) = Some v})))
                              cm)
                           (num_mul
                              (Fin (of_nat (card {i \<in> {1..totalQuestions s}.
                                    \<exists>v. checked (rows s ! (i - 1)) = Some v
                                        \<and> map_of (answerKey s) (int i) \<noteq> Some v})))
                              (if num_falsy w then Fin 0 else w)))
                        (num_mul (Fin (of_nat (totalQuestions s))) cm)))"
proof (intro conjI allI impI)
  assume a: "length (rows s) = totalQuestions s \<and> correctMarks s = None"
  then have wf: "length (rows s) = totalQuestions s" and cm: "correctMarks s = None" by simp_all
  from gradeSheet_spec [OF wf, of now] cm
  show "\<exists>s' r. gradeSheet now s = Inr s' \<and> results s' = Some r
          \<and> scoreShown r =
              RawCount (card {i \<in> {1..totalQuestions s}.
                              \<exists>v. checked (rows s ! (i - 1)) = Some v
                                  \<and> map_of (answerKey s) (int i) = Some v})
                       (totalQuestions s)"
    by fastforce
next
  fix n
  assume "parseInt (questionCountInput s) = Some n \<and> 1 \<le> n \<and> n \<le> 200"
  then show "correctMarks (generateOMRSheet now s) = correctMarksInput s"
    and "wrongMarks (generateOMRSheet now s) =
              (case wrongMarksInput s of
                 None \<Rightarrow> None
               | Some w \<Rightarrow> Some (if num_positive w then num_neg w else w))"
    by (simp_all add: generateOMRSheet_def startTimer_def resetOMRState_def split: option.split)
next
  fix n w
  assume "parseInt (questionCountInput s) = Some n \<and> 1 \<le> n \<and> n \<le> 200
            \<and> wrongMarksInput s = Some w \<and> num_positive w"
  then show "wrongMarks (generateOMRSheet now s) = Some (num_neg w)"
    by (simp add: generateOMRSheet_def startTimer_def resetOMRState_def)
next
  fix n w
  assume a: "parseInt (questionCountInput s) = Some n \<and> 1 \<le> n \<and> n \<le> 200
            \<and> wrongMarks (generateOMRSheet now s) = Some w"
  have neg: "\<not> num_positive (num_neg v)" if "num_positive v" for v
    using that by (cases v) simp_all
  from a show "\<not> num_positive w"
    by (auto simp: generateOMRSheet_def startTimer_def resetOMRState_def neg
          split: option.splits if_splits)
next
  fix cm w
  assume a: "length (rows s) = totalQuestions s \<and> correctMarks s = Some cm \<and> wrongMarks s = Some w"
  then have wf: "length (rows s) = totalQuestions s" by simp
  from gradeSheet_spec [OF wf, of now] a
  show "\<exists>s' r. gradeSheet now s = Inr s' \<and> results s' = Some r
              \<and> scoreShown r =
                  Marks (num_add
                           (num_mul
                              (Fin (of_nat (card {i \<in> {1..totalQuestions s}.
                                    \<exists>v. checked (rows s ! (i - 1)) = Some v
                                        \<and> map_of (answerKey s) (int i) = Some v})))
                              cm)
                           (num_mul
                              (Fin (of_nat (card {i \<in> {1..totalQuestions s}.
                                    \<exists>v. checked (rows s ! (i - 1)) = Some v
                                        \<and> map_of (answerKey s) (int i) \<noteq> Some v})))
                              (if num_falsy w then Fin 0 else w)))
                        (num_mul (Fin (of_nat (totalQuestions s))) cm)"
    by (fastforce simp: or_zero_def)
qed

text \<open>
  C7 on the marked sheet, which has no marks and one correct answer out of two; on
  generating with 1 in the wrong-marks field; and on the sample sheet, where one correct
  answer at 2 marks and one incorrect answer at -1 mark give the score 1 out of 6.
\<close>

theorem marking_scheme_witness:
  "length (rows marked_sheet) = totalQuestions marked_sheet
   \<and> correctMarks marked_sheet = None
   \<and> (\<exists>s' r. gradeSheet 7 marked_sheet = Inr s' \<and> results s' = Some r
          \<and> scoreShown r = RawCount 1 2)
   \<and> parseInt ''3'' = Some 3
   \<and> wrongMarks (generateOMRSheet 0 (init\<lparr>questionCountInput := ''3'',
                                             wrongMarksInput := Some (Fin 1)\<rparr>))
        = Some (Fin (- 1))
   \<and> \<not> num_positive (Fin (- 1))
   \<and> length (rows sample_sheet) = totalQuestions sample_sheet
   \<and> correctMarks sample_sheet = Some (Fin 2)
   \<and> wrongMarks sample_sheet = Some (Fin (- 1))
   \<and> (\<exists>s' r. gradeSheet 7 sample_sheet = Inr s' \<and> results s' = Some r
          \<and> scoreShown r = Marks (Fin 1) (Fin 6))"
proof -
  have p3: "parseInt ''3'' = Some 3" by (simp add: text_simps)
  have m: "length (rows marked_sheet) = totalQuestions marked_sheet"
    "correctMarks marked_sheet = None" "totalQuestions marked_sheet = 2"
    "answerKey marked_sheet = [(1, ''A''), (2, ''B'')]"
    "rows marked_sheet = [createQuestionRow\<lparr>checked := Some ''A''\<rparr>, createQuestionRow]"
    by (simp_all add: marked_sheet_def selectOption_def get_row_def uploaded_sheet_fields
        fresh_sheet_eq createQuestionRow_def init_def)
  have sm: "length (rows sample_sheet) = totalQuestions sample_sheet"
    "correctMarks sample_sheet = Some (Fin 2)" "wrongMarks sample_sheet = Some (Fin (- 1))"
    "totalQuestions sample_sheet = 3" "answerKey sample_sheet = [(1, ''A''), (2, ''B''), (3, ''C'')]"
    "rows sample_sheet = [createQuestionRow\<lparr>checked := Some ''A''\<rparr>,
                    createQuestionRow\<lparr>checked := Some ''C''\<rparr>, createQuestionRow]"
    by (simp_all add: sample_sheet_def init_def)
  have two: "card {i \<in> {1..2::nat}. P i} = (if P 1 then 1 else 0) + (if P 2 then 1 else 0)" for P
    using card_from [of 1 2 P] card_from [of 2 2 P] by (simp add: numeral_2_eq_2)
  have three: "card {i \<in> {1..3::nat}. P i}
                 = (if P 1 then 1 else 0) + (if P 2 then 1 else 0) + (if P 3 then 1 else 0)" for P
    using card_from [of 1 3 P] card_from [of 2 3 P] card_from [of 3 3 P]
    by (simp add: numeral_2_eq_2 numeral_3_eq_3)
  have cm: "card {i \<in> {1..totalQuestions marked_sheet}.
                \<exists>v. checked (rows marked_sheet ! (i - 1)) = Some v
                    \<and> map_of (answerKey marked_sheet) (int i) = Some v} = 1"
    unfolding m(3) m(4) m(5) two by (simp add: createQuestionRow_def)
  have cs: "card {i \<in> {1..totalQuestions sample_sheet}.
                \<exists>v. checked (rows sample_sheet ! (i - 1)) = Some v
                    \<and> map_of (answerKey sample_sheet) (int i) = Some v} = 1"
    unfolding sm(4) sm(5) sm(6) three by (simp add: createQuestionRow_def)
  have ws: "card {i \<in> {1..totalQuestions sample_sheet}.
                \<exists>v. checked (rows sample_sheet ! (i - 1)) = Some v
                    \<and> map_of (answerKey sample_sheet) (int i) \<noteq> Some v} = 1"
    unfolding sm(4) sm(5) sm(6) three by (simp add: createQuestionRow_def)
  have a: "\<exists>s' r. gradeSheet 7 marked_sheet = Inr s' \<and> results s' = Some r
          \<and> scoreShown r = RawCount 1 2"
    using marking_scheme [of marked_sheet 7, THEN conjunct1] m(1) m(2)
    unfolding cm by (simp add: m(3))
  have b: "wrongMarks (generateOMRSheet 0 (init\<lparr>questionCountInput := ''3'',
                                             wrongMarksInput := Some (Fin 1)\<rparr>))
        = Some (Fin (- 1))"
    using marking_scheme [of "init\<lparr>questionCountInput := ''3'', wrongMarksInput := Some (Fin 1)\<rparr>" 0,
        THEN conjunct2, THEN conjunct2, THEN conjunct1]
    by (simp add: p3)
  have c: "\<exists>s' r. gradeSheet 7 sample_sheet = Inr s' \<and> results s' = Some r
          \<and> scoreShown r = Marks (Fin 1) (Fin 6)"
    using marking_scheme [of sample_sheet 7, THEN conjunct2, THEN conjunct2, THEN conjunct2,
        THEN conjunct2] sm(1) sm(2) sm(3)
    unfolding cs ws by (simp add: sm(4) fl_small)
  have d: "\<not> num_positive (Fin (- 1))" by simp
  show ?thesis
    by (intro conjI) (rule m(1) m(2) a p3 b d sm(1) sm(2) sm(3) c)+
qed

section \<open>The typed key\<close>

text \<open>
  C3, as the script behaves. \<open>handleCheckAnswers\<close> first trims the typed text and puts it
  in upper case; let \<open>m\<close> be the result, and let it be non-empty. If \<open>m\<close> has exactly
  \<open>totalQuestions\<close> characters (and the sheet has its rows), the check goes through without
  an error message and the stored key has exactly the questions 1 to \<open>totalQuestions\<close>,
  question \<open>i + 1\<close> holding the character \<open>m[i]\<close>. If the length differs, the only effect is
  the message "Manual key has (length of m) answers, but there are (totalQuestions)
  questions."; the stored key is the one from before.
\<close>

theorem typed_key_normalized:
  "toUpperCase (trim (manualKeyInput s)) = m \<and> m \<noteq> [] \<longrightarrow>
     (length m = totalQuestions s \<and> length (rows s) = totalQuestions s \<longrightarrow>
        (\<exists>s'. handleCheckAnswers now s = Inr s' \<and> checkError s' = None
           \<and> map fst (answerKey s') = map (\<lambda>i. int i + 1) [0..<totalQuestions s]
           \<and> (\<forall>i<length m. map_of (answerKey s') (int i + 1) = Some [m ! i])))
     \<and> (length m \<noteq> totalQuestions s \<longrightarrow>
        handleCheckAnswers now s =
          Inr (s\<lparr>checkError := Some (LengthMismatch (length m) (totalQuestions s))\<rparr>)
        \<and> answerKey (s\<lparr>checkError := Some (LengthMismatch (length m) (totalQuestions s))\<rparr>)
            = answerKey s)"
proof (intro impI conjI)
  assume a: "toUpperCase (trim (manualKeyInput s)) = m \<and> m \<noteq> []"
  {
    assume b: "length m = totalQuestions s \<and> length (rows s) = totalQuestions s"
    from handleCheckAnswers_typed [of s m now] a b obtain s' where
      s': "handleCheckAnswers now s = Inr s'" "checkError s' = None"
      and k: "answerKey s' = map (\<lambda>j. (int j + 1, [m ! j])) [0..<length m]"
      by blast
    have "map fst (answerKey s') = map (\<lambda>i. int i + 1) [0..<totalQuestions s]"
      using b by (simp add: k comp_def)
    moreover have "\<forall>i<length m. map_of (answerKey s') (int i + 1) = Some [m ! i]"
      by (simp add: k typed_key_lookup)
    ultimately show "\<exists>s'. handleCheckAnswers now s = Inr s' \<and> checkError s' = None
           \<and> map fst (answerKey s') = map (\<lambda>i. int i + 1) [0..<totalQuestions s]
           \<and> (\<forall>i<length m. map_of (answerKey s') (int i + 1) = Some [m ! i])"
      using s' by blast
  }
  {
    assume "length m \<noteq> totalQuestions s"
    with a show "handleCheckAnswers now s =
          Inr (s\<lparr>checkError := Some (LengthMismatch (length m) (totalQuestions s))\<rparr>)"
      using handleCheckAnswers_manual [of s m now] by simp
  }
  show "answerKey (s\<lparr>checkError := Some (LengthMismatch (length m) (totalQuestions s))\<rparr>)
            = answerKey s"
    by simp
qed

text \<open>
  C3 amended, on a sheet of two questions: the typed text " ab " is accepted as A, B; the
  typed text "ABC" is refused with the counts 3 and 2.
\<close>

theorem typed_key_normalized_witness:
  "toUpperCase (trim '' ab '') = ''AB''
   \<and> (\<exists>s'. handleCheckAnswers 5 (fresh_sheet\<lparr>manualKeyInput := '' ab ''\<rparr>) = Inr s'
         \<and> checkError s' = None
         \<and> map fst (answerKey s') = [1, 2]
         \<and> map_of (answerKey s') 1 = Some ''A'' \<and> map_of (answerKey s') 2 = Some ''B'')
   \<and> toUpperCase (trim ''ABC'') = ''ABC''
   \<and> handleCheckAnswers 5 (fresh_sheet\<lparr>manualKeyInput := ''ABC''\<rparr>)
       = Inr (fresh_sheet\<lparr>manualKeyInput := ''ABC'', checkError := Some (LengthMismatch 3 2)\<rparr>)"
proof -
  from typed_key_normalized [of "fresh_sheet\<lparr>manualKeyInput := '' ab ''\<rparr>" "''AB''" 5]
  obtain s' where s': "handleCheckAnswers 5 (fresh_sheet\<lparr>manualKeyInput := '' ab ''\<rparr>) = Inr s'"
     "checkError s' = None" "map fst (answerKey s') = map (\<lambda>i. int i + 1) [0..<2]"
     and l: "\<forall>i<length ''AB''. map_of (answerKey s') (int i + 1) = Some [''AB'' ! i]"
    by (auto simp: typed_ab fresh_sheet_fields)
  from l [rule_format, of 0] l [rule_format, of 1]
  have v: "map_of (answerKey s') 1 = Some ''A''" "map_of (answerKey s') 2 = Some ''B''"
    by simp_all
  have ks: "map fst (answerKey s') = [1, 2]"
    using s'(3) by (simp add: numeral_2_eq_2)
  have A: "\<exists>s'. handleCheckAnswers 5 (fresh_sheet\<lparr>manualKeyInput := '' ab ''\<rparr>) = Inr s'
         \<and> checkError s' = None
         \<and> map fst (answerKey s') = [1, 2]
         \<and> map_of (answerKey s') 1 = Some ''A'' \<and> map_of (answerKey s') 2 = Some ''B''"
    by (intro exI [of _ s'] conjI) (rule s'(1) s'(2) ks v)+
  have B: "handleCheckAnswers 5 (fresh_sheet\<lparr>manualKeyInput := ''ABC''\<rparr>)
       = Inr (fresh_sheet\<lparr>manualKeyInput := ''ABC'', checkError := Some (LengthMismatch 3 2)\<rparr>)"
    using typed_key_normalized [of "fresh_sheet\<lparr>manualKeyInput := ''ABC''\<rparr>" "''ABC''" 5]
    by (simp add: typed_ab fresh_sheet_fields)
  show ?thesis
    by (intro conjI) (rule typed_ab(3) A typed_ab(2) B)+
qed

text \<open>
  C3 as stated fails. The typed text "ab" has the length of the sheet, yet the stored key
  holds "A" for question 1, not the character "a" of the text. The typed text of two
  blanks also has the length of the sheet, yet no key is produced and no length error is
  shown: the script asks whether to proceed without a key.
\<close>

theorem typed_key_lowercase:
  "length ''ab'' = totalQuestions fresh_sheet
   \<and> map_sum id answerKey (handleCheckAnswers 5 (fresh_sheet\<lparr>manualKeyInput := ''ab''\<rparr>))
       = Inr [(1, ''A''), (2, ''B'')]
   \<and> [''ab'' ! 0] \<noteq> ''A''
   \<and> length ''  '' = totalQuestions fresh_sheet
   \<and> handleCheckAnswers 5 (fresh_sheet\<lparr>manualKeyInput := ''  ''\<rparr>)
       = Inr (fresh_sheet\<lparr>manualKeyInput := ''  '', confirmModal := True\<rparr>)"
proof -
  from handleCheckAnswers_typed [of "fresh_sheet\<lparr>manualKeyInput := ''ab''\<rparr>" "''AB''" 5]
  obtain s' where s': "handleCheckAnswers 5 (fresh_sheet\<lparr>manualKeyInput := ''ab''\<rparr>) = Inr s'"
    and k: "answerKey s' = [(1, ''A''), (2, ''B'')]"
    by (auto simp: typed_ab fresh_sheet_fields numeral_2_eq_2)
  have A: "map_sum id answerKey (handleCheckAnswers 5 (fresh_sheet\<lparr>manualKeyInput := ''ab''\<rparr>))
             = Inr [(1, ''A''), (2, ''B'')]"
    by (simp add: s' k)
  have B: "handleCheckAnswers 5 (fresh_sheet\<lparr>manualKeyInput := ''  ''\<rparr>)
       = Inr (fresh_sheet\<lparr>manualKeyInput := ''  '', confirmModal := True\<rparr>)"
    by (simp add: handleCheckAnswers_def typed_ab fresh_sheet_fields key_count_def)
  have L: "length ''ab'' = totalQuestions fresh_sheet" "length ''  '' = totalQuestions fresh_sheet"
    "[''ab'' ! 0] \<noteq> ''A''"
    by (simp_all add: fresh_sheet_fields)
  show ?thesis
    by (intro conjI) (rule L A B)+
qed

section \<open>What a stored key can hold\<close>

text \<open>
  C6, as the script behaves. A key stored from the typed text has exactly the questions
  1 to \<open>totalQuestions\<close>, and its values are the characters of the normalized text, one
  each, whatever characters they are. \<open>parseAnswerKeyFromExcel\<close>, given at least one row
  that passes the test of line 538, replaces the key, whatever it held: the question
  numbers stored are exactly the numbers of the rows that pass, every entry stored is the
  number and the letter of such a row, and every value is one of A, B, C, D. Given no
  such row it leaves the key as it was. \<open>parseAnswerKeyFromText\<close>, given a text with a
  match, replaces the key by the one the loop collects from the empty key: every value
  is one of A, B, C, D, every question number is a natural number, and the number of
  the first match is among them. Given a text without a match it leaves the key as it
  was. Neither parser compares a question number with \<open>totalQuestions\<close>.
\<close>

theorem stored_key_entries:
  "(toUpperCase (trim (manualKeyInput s)) = m \<and> m \<noteq> [] \<and> length m = totalQuestions s
      \<and> length (rows s) = totalQuestions s \<longrightarrow>
      (\<exists>s'. handleCheckAnswers now s = Inr s'
         \<and> map fst (answerKey s') = map (\<lambda>i. int i + 1) [0..<totalQuestions s]
         \<and> map snd (answerKey s') = map (\<lambda>c. [c]) m))
   \<and> ((\<exists>r \<in> set data. excel_row r \<noteq> None) \<longrightarrow>
        fst ` set (answerKey (parseAnswerKeyFromExcel data s))
          = {q. \<exists>r \<in> set data. \<exists>a. excel_row r = Some (q, a)}
        \<and> set (answerKey (parseAnswerKeyFromExcel data s))
            \<subseteq> {(q, a). \<exists>r \<in> set data. excel_row r = Some (q, a)}
        \<and> snd ` set (answerKey (parseAnswerKeyFromExcel data s))
            \<subseteq> set [''A'', ''B'', ''C'', ''D''])
   \<and> ((\<forall>r \<in> set data. excel_row r = None) \<longrightarrow>
        answerKey (parseAnswerKeyFromExcel data s) = answerKey s)
   \<and> (regex_exec content \<noteq> None \<longrightarrow>
        answerKey (parseAnswerKeyFromText content s) = fst (text_loop content [] 0)
        \<and> snd ` set (answerKey (parseAnswerKeyFromText content s))
            \<subseteq> set [''A'', ''B'', ''C'', ''D'']
        \<and> (\<forall>q \<in> fst ` set (answerKey (parseAnswerKeyFromText content s)). 0 \<le> q)
        \<and> (\<forall>ds l rest. regex_exec content = Some (ds, l, rest) \<longrightarrow>
              (\<exists>q. parseInt ds = Some q
                 \<and> q \<in> fst ` set (answerKey (parseAnswerKeyFromText content s)))))
   \<and> (regex_exec content = None \<longrightarrow>
        answerKey (parseAnswerKeyFromText content s) = answerKey s)"
proof (intro conjI impI allI)
  assume a: "toUpperCase (trim (manualKeyInput s)) = m \<and> m \<noteq> [] \<and> length m = totalQuestions s
      \<and> length (rows s) = totalQuestions s"
  from handleCheckAnswers_typed [of s m now] a obtain s' where
    s': "handleCheckAnswers now s = Inr s'"
    and k: "answerKey s' = map (\<lambda>j. (int j + 1, [m ! j])) [0..<length m]"
    by blast
  have "map fst (answerKey s') = map (\<lambda>i. int i + 1) [0..<totalQuestions s]"
    using a by (simp add: k comp_def)
  moreover have "map snd (answerKey s') = map (\<lambda>c. [c]) m"
    by (rule nth_equalityI) (simp_all add: k)
  ultimately show "\<exists>s'. handleCheckAnswers now s = Inr s'
         \<and> map fst (answerKey s') = map (\<lambda>i. int i + 1) [0..<totalQuestions s]
         \<and> map snd (answerKey s') = map (\<lambda>c. [c]) m"
    using s' by blast
next
  assume "\<exists>r \<in> set data. excel_row r \<noteq> None"
  then have st: "answerKey (parseAnswerKeyFromExcel data s) = fst (excel_rows data [] 0)"
    by (simp add: excel_rows_stored excel_rows_pos)
  show "fst ` set (answerKey (parseAnswerKeyFromExcel data s))
          = {q. \<exists>r \<in> set data. \<exists>a. excel_row r = Some (q, a)}"
    unfolding st excel_rows_keys by simp
  show "set (answerKey (parseAnswerKeyFromExcel data s))
            \<subseteq> {(q, a). \<exists>r \<in> set data. excel_row r = Some (q, a)}"
    unfolding st using excel_rows_entries [of data "[]" 0] by simp
  show "snd ` set (answerKey (parseAnswerKeyFromExcel data s))
            \<subseteq> set [''A'', ''B'', ''C'', ''D'']"
    unfolding st by (rule excel_rows_values) simp
next
  assume "\<forall>r \<in> set data. excel_row r = None"
  then have "\<not> 0 < snd (excel_rows data [] 0)"
    unfolding excel_rows_pos by simp
  then show "answerKey (parseAnswerKeyFromExcel data s) = answerKey s"
    by (simp add: excel_rows_stored)
next
  assume m: "regex_exec content \<noteq> None"
  then show st: "answerKey (parseAnswerKeyFromText content s) = fst (text_loop content [] 0)"
    by (simp add: text_loop_stored text_loop_pos)
  show "snd ` set (answerKey (parseAnswerKeyFromText content s))
            \<subseteq> set [''A'', ''B'', ''C'', ''D'']"
    unfolding st by (rule text_loop_values) simp
  show "\<forall>q \<in> fst ` set (answerKey (parseAnswerKeyFromText content s)). 0 \<le> q"
    unfolding st by (rule text_loop_nonneg) simp
  fix ds l rest
  assume ex: "regex_exec content = Some (ds, l, rest)"
  show "\<exists>q. parseInt ds = Some q
                 \<and> q \<in> fst ` set (answerKey (parseAnswerKeyFromText content s))"
    unfolding st
    using regex_exec_number [OF ex] text_loop_first [OF ex, of "[]" 0] by blast
next
  assume "regex_exec content = None"
  then have "\<not> 0 < snd (text_loop content [] 0)"
    unfolding text_loop_pos by simp
  then show "answerKey (parseAnswerKeyFromText content s) = answerKey s"
    by (simp add: text_loop_stored)
qed

text \<open>
  C6 amended, on a sheet of two questions: the typed text "XY"; then, with a key 1:X
  stored before, the rows [0, "A"], [7, "B"], the row ["x", "B"], the text "0 A 9: B"
  and the text "1 a".
\<close>

theorem stored_key_entries_witness:
  "toUpperCase (trim ''XY'') = ''XY''
   \<and> map_sum id (map fst \<circ> answerKey) (handleCheckAnswers 5 (fresh_sheet\<lparr>manualKeyInput := ''XY''\<rparr>))
       = Inr [1, 2]
   \<and> map_sum id (map snd \<circ> answerKey) (handleCheckAnswers 5 (fresh_sheet\<lparr>manualKeyInput := ''XY''\<rparr>))
       = Inr [''X'', ''Y'']
   \<and> excel_row [Num 0, Str ''A''] = Some (0, ''A'')
   \<and> fst ` set (answerKey (parseAnswerKeyFromExcel [[Num 0, Str ''A''], [Num 7, Str ''B'']]
                              (fresh_sheet\<lparr>answerKey := [(1, ''X'')]\<rparr>))) = {0, 7}
   \<and> snd ` set (answerKey (parseAnswerKeyFromExcel [[Num 0, Str ''A''], [Num 7, Str ''B'']]
                              (fresh_sheet\<lparr>answerKey := [(1, ''X'')]\<rparr>)))
       \<subseteq> set [''A'', ''B'', ''C'', ''D'']
   \<and> (1, ''X'') \<notin> set (answerKey (parseAnswerKeyFromExcel [[Num 0, Str ''A''], [Num 7, Str ''B'']]
                              (fresh_sheet\<lparr>answerKey := [(1, ''X'')]\<rparr>)))
   \<and> excel_row [Str ''x'', Str ''B''] = None
   \<and> answerKey (parseAnswerKeyFromExcel [[Str ''x'', Str ''B'']]
                   (fresh_sheet\<lparr>answerKey := [(1, ''X'')]\<rparr>)) = [(1, ''X'')]
   \<and> regex_exec ''0 A 9: B'' = Some (''0'', CHR ''A'', '' 9: B'')
   \<and> answerKey (parseAnswerKeyFromText ''0 A 9: B'' (fresh_sheet\<lparr>answerKey := [(1, ''X'')]\<rparr>))
       = [(0, ''A''), (9, ''B'')]
   \<and> snd ` set (answerKey (parseAnswerKeyFromText ''0 A 9: B''
                              (fresh_sheet\<lparr>answerKey := [(1, ''X'')]\<rparr>)))
       \<subseteq> set [''A'', ''B'', ''C'', ''D'']
   \<and> 0 \<in> fst ` set (answerKey (parseAnswerKeyFromText ''0 A 9: B''
                              (fresh_sheet\<lparr>answerKey := [(1, ''X'')]\<rparr>)))
   \<and> regex_exec ''1 a'' = None
   \<and> answerKey (parseAnswerKeyFromText ''1 a'' (fresh_sheet\<lparr>answerKey := [(1, ''X'')]\<rparr>))
       = [(1, ''X'')]"
proof -
  let ?s = "fresh_sheet\<lparr>answerKey := [(1, ''X'')]\<rparr>"
  let ?D = "[[Num 0, Str ''A''], [Num 7, Str ''B'']]"
  note t = stored_key_entries [of "fresh_sheet\<lparr>manualKeyInput := ''XY''\<rparr>" "''XY''" 5 "[]" "[]"]
  from t have "\<exists>s'. handleCheckAnswers 5 (fresh_sheet\<lparr>manualKeyInput := ''XY''\<rparr>) = Inr s'
         \<and> map fst (answerKey s') = map (\<lambda>i. int i + 1) [0..<2]
         \<and> map snd (answerKey s') = map (\<lambda>c. [c]) ''XY''"
    by (simp add: typed_ab fresh_sheet_fields)
  then obtain s' where s': "handleCheckAnswers 5 (fresh_sheet\<lparr>manualKeyInput := ''XY''\<rparr>) = Inr s'"
    and k: "map fst (answerKey s') = map (\<lambda>i. int i + 1) [0..<2]"
      "map snd (answerKey s') = map (\<lambda>c. [c]) ''XY''"
    by (elim exE conjE)
  have a: "map_sum id (map fst \<circ> answerKey) (handleCheckAnswers 5 (fresh_sheet\<lparr>manualKeyInput := ''XY''\<rparr>))
       = Inr [1, 2]"
    by (simp add: s' k numeral_2_eq_2)
  have b: "map_sum id (map snd \<circ> answerKey) (handleCheckAnswers 5 (fresh_sheet\<lparr>manualKeyInput := ''XY''\<rparr>))
       = Inr [''X'', ''Y'']"
    by (simp add: s' k)
  have acc: "\<exists>r \<in> set ?D. excel_row r \<noteq> None"
    by (simp add: excel_row_cases)
  note e = stored_key_entries [of ?s "[]" 0 ?D "[]", THEN conjunct2, THEN conjunct1, rule_format,
      OF acc]
  have e1: "fst ` set (answerKey (parseAnswerKeyFromExcel ?D ?s)) = {0, 7}"
    unfolding e [THEN conjunct1] by (auto simp: excel_row_cases)
  have e2: "snd ` set (answerKey (parseAnswerKeyFromExcel ?D ?s)) \<subseteq> set [''A'', ''B'', ''C'', ''D'']"
    by (rule e [THEN conjunct2, THEN conjunct2])
  have e3: "(1, ''X'') \<notin> set (answerKey (parseAnswerKeyFromExcel ?D ?s))"
    using e [THEN conjunct2, THEN conjunct1] by (auto simp: excel_row_cases)
  have rej: "\<forall>r \<in> set [[Str ''x'', Str ''B'']]. excel_row r = None"
    by (simp add: excel_row_cases)
  have f: "answerKey (parseAnswerKeyFromExcel [[Str ''x'', Str ''B'']] ?s) = [(1, ''X'')]"
    using stored_key_entries [of ?s "[]" 0 "[[Str ''x'', Str ''B'']]" "[]", THEN conjunct2,
        THEN conjunct2, THEN conjunct1, THEN mp, OF rej]
    by simp
  have r1: "regex_exec ''0 A 9: B'' = Some (''0'', CHR ''A'', '' 9: B'')"
    by (simp add: match_here_def text_simps)
  have r2: "regex_exec ''1 a'' = None"
    by (simp add: match_here_def text_simps)
  have m: "regex_exec ''0 A 9: B'' \<noteq> None" unfolding r1 by simp
  note g = stored_key_entries [of ?s "[]" 0 "[]" "''0 A 9: B''", THEN conjunct2, THEN conjunct2,
      THEN conjunct2, THEN conjunct1, rule_format, OF m]
  have g1: "answerKey (parseAnswerKeyFromText ''0 A 9: B'' ?s) = [(0, ''A''), (9, ''B'')]"
    unfolding g [THEN conjunct1] by (simp add: text_example)
  have g2: "snd ` set (answerKey (parseAnswerKeyFromText ''0 A 9: B'' ?s))
              \<subseteq> set [''A'', ''B'', ''C'', ''D'']"
    by (rule g [THEN conjunct2, THEN conjunct1])
  have p0: "parseInt ''0'' = Some 0" by (simp add: text_simps)
  from g [THEN conjunct2, THEN conjunct2, THEN conjunct2, rule_format, OF r1]
  have g3: "0 \<in> fst ` set (answerKey (parseAnswerKeyFromText ''0 A 9: B'' ?s))"
    unfolding p0 by simp
  have h: "answerKey (parseAnswerKeyFromText ''1 a'' ?s) = [(1, ''X'')]"
    using stored_key_entries [of ?s "[]" 0 "[]" "''1 a''", THEN conjunct2, THEN conjunct2,
        THEN conjunct2, THEN conjunct2, rule_format, OF r2]
    by simp
  show ?thesis
    by (intro conjI) (rule typed_ab(4) a b excel_row_cases(5) e1 e2 e3 excel_row_cases(2) f r1 g1 g2
        g3 r2 h)+
qed

text \<open>
  C6 as stated fails, on a sheet of two questions. The typed text "XY" is stored as the
  key 1:X, 2:Y, and X is none of A, B, C, D. The rows [0, "A"], [7, "B"] are stored as the
  key 0:A, 7:B, and the check then grades with that key without any error, although 0
  and 7 are not questions of the sheet. The text "0 A 9: B" is stored as the key 0:A, 9:B.
\<close>

theorem stored_key_out_of_range:
  "totalQuestions fresh_sheet = 2
   \<and> map_sum id answerKey (handleCheckAnswers 5 (fresh_sheet\<lparr>manualKeyInput := ''XY''\<rparr>))
       = Inr [(1, ''X''), (2, ''Y'')]
   \<and> ''X'' \<notin> set [''A'', ''B'', ''C'', ''D'']
   \<and> answerKey (parseAnswerKeyFromExcel [[Num 0, Str ''A''], [Num 7, Str ''B'']] fresh_sheet)
       = [(0, ''A''), (7, ''B'')]
   \<and> map_sum id answerKey
        (handleCheckAnswers 5
           (parseAnswerKeyFromExcel [[Num 0, Str ''A''], [Num 7, Str ''B'']] fresh_sheet))
       = Inr [(0, ''A''), (7, ''B'')]
   \<and> map_sum id checkError
        (handleCheckAnswers 5
           (parseAnswerKeyFromExcel [[Num 0, Str ''A''], [Num 7, Str ''B'']] fresh_sheet))
       = Inr None
   \<and> answerKey (parseAnswerKeyFromText ''0 A 9: B'' fresh_sheet) = [(0, ''A''), (9, ''B'')]"
proof -
  let ?u = "parseAnswerKeyFromExcel [[Num 0, Str ''A''], [Num 7, Str ''B'']] fresh_sheet"
  from handleCheckAnswers_typed [of "fresh_sheet\<lparr>manualKeyInput := ''XY''\<rparr>" "''XY''" 5]
  obtain s' where s': "handleCheckAnswers 5 (fresh_sheet\<lparr>manualKeyInput := ''XY''\<rparr>) = Inr s'"
    and k: "answerKey s' = [(1, ''X''), (2, ''Y'')]"
    by (auto simp: typed_ab fresh_sheet_fields numeral_2_eq_2)
  have a: "map_sum id answerKey (handleCheckAnswers 5 (fresh_sheet\<lparr>manualKeyInput := ''XY''\<rparr>))
       = Inr [(1, ''X''), (2, ''Y'')]"
    by (simp add: s' k)
  have u: "answerKey ?u = [(0, ''A''), (7, ''B'')]" "manualKeyInput ?u = []"
    "totalQuestions ?u = 2" "length (rows ?u) = 2"
    by (simp_all add: parseAnswerKeyFromExcel_def excel_out_of_range fresh_sheet_fields
          del: excel_rows.simps)
  have "handleCheckAnswers 5 ?u = gradeSheet 5 ?u"
    by (simp add: handleCheckAnswers_def u key_count_def text_simps)
  moreover from gradeSheet_returns [of ?u 5] obtain s2 where
    "gradeSheet 5 ?u = Inr s2" "answerKey s2 = answerKey ?u" "checkError s2 = None"
    by (auto simp: u)
  ultimately have b: "map_sum id answerKey (handleCheckAnswers 5 ?u) = Inr [(0, ''A''), (7, ''B'')]"
    and c: "map_sum id checkError (handleCheckAnswers 5 ?u) = Inr None"
    by (simp_all add: u)
  have d: "answerKey (parseAnswerKeyFromText ''0 A 9: B'' fresh_sheet) = [(0, ''A''), (9, ''B'')]"
    by (simp add: parseAnswerKeyFromText_def text_example)
  have e: "''X'' \<notin> set [''A'', ''B'', ''C'', ''D'']" by simp
  show ?thesis
    by (intro conjI) (rule fresh_sheet_fields(1) a e u(1) b c d)+
qed

section \<open>Typed key and uploaded key\<close>

text \<open>
  C10, as the script behaves. Let \<open>m\<close> be the typed text, trimmed and in upper case, and
  let it be non-empty. If \<open>m\<close> has \<open>totalQuestions\<close> characters, the check stores the key
  made of the characters of \<open>m\<close> and nothing else, and its outcome is the same whatever
  key was stored before. If the length differs, the check is refused with the length
  message whatever key was stored before, and that key stays as it was. A file parse
  that finds at least one answer stores the parsed key and empties the typed key field.
\<close>

theorem manual_key_precedence:
  "(toUpperCase (trim (manualKeyInput s)) = m \<and> m \<noteq> [] \<longrightarrow>
      (length m = totalQuestions s \<and> length (rows s) = totalQuestions s \<longrightarrow>
         (\<exists>s'. handleCheckAnswers now s = Inr s'
            \<and> answerKey s' = map (\<lambda>i. (int i + 1, [m ! i])) [0..<length m]
            \<and> (\<forall>k. handleCheckAnswers now (s\<lparr>answerKey := k\<rparr>) = Inr s')))
      \<and> (length m \<noteq> totalQuestions s \<longrightarrow>
         (\<forall>k. handleCheckAnswers now (s\<lparr>answerKey := k\<rparr>) =
                Inr (s\<lparr>answerKey := k,
                       checkError := Some (LengthMismatch (length m) (totalQuestions s))\<rparr>))))
   \<and> (0 < snd (excel_rows data [] 0) \<longrightarrow>
        manualKeyInput (parseAnswerKeyFromExcel data s) = []
        \<and> answerKey (parseAnswerKeyFromExcel data s) = fst (excel_rows data [] 0))
   \<and> (0 < snd (text_loop content [] 0) \<longrightarrow>
        manualKeyInput (parseAnswerKeyFromText content s) = []
        \<and> answerKey (parseAnswerKeyFromText content s) = fst (text_loop content [] 0))"
proof (intro conjI impI allI)
  fix k
  assume a: "toUpperCase (trim (manualKeyInput s)) = m \<and> m \<noteq> []"
    and b: "length m \<noteq> totalQuestions s"
  from a have "toUpperCase (trim (manualKeyInput (s\<lparr>answerKey := k\<rparr>))) = m" by simp
  from handleCheckAnswers_manual [OF this, of now] a b
  show "handleCheckAnswers now (s\<lparr>answerKey := k\<rparr>) =
                Inr (s\<lparr>answerKey := k,
                       checkError := Some (LengthMismatch (length m) (totalQuestions s))\<rparr>)"
    by simp
next
  assume a: "toUpperCase (trim (manualKeyInput s)) = m \<and> m \<noteq> []"
    and b: "length m = totalQuestions s \<and> length (rows s) = totalQuestions s"
  from handleCheckAnswers_typed [of s m now] a b obtain s' where
    s': "handleCheckAnswers now s = Inr s'"
    and k: "answerKey s' = map (\<lambda>j. (int j + 1, [m ! j])) [0..<length m]"
    by blast
  have same: "handleCheckAnswers now (s\<lparr>answerKey := k\<rparr>) = Inr s'" for k
  proof -
    from a have "toUpperCase (trim (manualKeyInput (s\<lparr>answerKey := k\<rparr>))) = m" by simp
    from handleCheckAnswers_manual [OF this, of now] a b
    have "handleCheckAnswers now (s\<lparr>answerKey := k\<rparr>)
            = gradeSheet now (s\<lparr>answerKey := map (\<lambda>j. (int j + 1, [m ! j])) [0..<length m]\<rparr>)"
      by simp
    also have "\<dots> = handleCheckAnswers now s"
      using handleCheckAnswers_manual [of s m now] a b by simp
    finally show ?thesis using s' by simp
  qed
  show "\<exists>s'. handleCheckAnswers now s = Inr s'
            \<and> answerKey s' = map (\<lambda>i. (int i + 1, [m ! i])) [0..<length m]
            \<and> (\<forall>k. handleCheckAnswers now (s\<lparr>answerKey := k\<rparr>) = Inr s')"
    by (intro exI [of _ s'] conjI allI) (rule s' k same)+
next
  assume "0 < snd (excel_rows data [] 0)"
  then show "manualKeyInput (parseAnswerKeyFromExcel data s) = []"
    and "answerKey (parseAnswerKeyFromExcel data s) = fst (excel_rows data [] 0)"
    by (simp_all add: excel_rows_stored)
next
  assume "0 < snd (text_loop content [] 0)"
  then show "manualKeyInput (parseAnswerKeyFromText content s) = []"
    and "answerKey (parseAnswerKeyFromText content s) = fst (text_loop content [] 0)"
    by (simp_all add: text_loop_stored)
qed

text \<open>
  C10 amended, on a sheet of two questions with the uploaded key 1:A, 2:B: the typed text
  "ba" replaces the key by 1:B, 2:A, with the same outcome as from an empty stored key;
  the typed text "ABC" is refused; both parsers empty a typed key field holding "ba".
\<close>

theorem manual_key_precedence_witness:
  "toUpperCase (trim ''ba'') = ''BA''
   \<and> answerKey (uploaded_sheet\<lparr>manualKeyInput := ''ba''\<rparr>) = [(1, ''A''), (2, ''B'')]
   \<and> map_sum id answerKey (handleCheckAnswers 5 (uploaded_sheet\<lparr>manualKeyInput := ''ba''\<rparr>))
       = Inr [(1, ''B''), (2, ''A'')]
   \<and> handleCheckAnswers 5 (uploaded_sheet\<lparr>manualKeyInput := ''ba''\<rparr>)
       = handleCheckAnswers 5 (uploaded_sheet\<lparr>manualKeyInput := ''ba'', answerKey := []\<rparr>)
   \<and> toUpperCase (trim ''ABC'') = ''ABC''
   \<and> handleCheckAnswers 5 (uploaded_sheet\<lparr>manualKeyInput := ''ABC''\<rparr>)
       = Inr (uploaded_sheet\<lparr>manualKeyInput := ''ABC'', checkError := Some (LengthMismatch 3 2)\<rparr>)
   \<and> manualKeyInput (parseAnswerKeyFromExcel [[Num 1, Str ''a''], [Num 2, Str ''B'']]
                        (fresh_sheet\<lparr>manualKeyInput := ''ba''\<rparr>)) = []
   \<and> manualKeyInput (parseAnswerKeyFromText ''0 A 9: B'' (fresh_sheet\<lparr>manualKeyInput := ''ba''\<rparr>)) = []"
proof -
  have ba: "toUpperCase (trim ''ba'') = ''BA''" by (simp add: text_simps)
  let ?s = "uploaded_sheet\<lparr>manualKeyInput := ''ba''\<rparr>"
  note t1 = manual_key_precedence [of ?s "''BA''" 5 "[]" "[]"]
  from t1 have "\<exists>s'. handleCheckAnswers 5 ?s = Inr s'
            \<and> answerKey s' = map (\<lambda>i. (int i + 1, [''BA'' ! i])) [0..<length ''BA'']
            \<and> (\<forall>k. handleCheckAnswers 5 (?s\<lparr>answerKey := k\<rparr>) = Inr s')"
    by (simp add: ba uploaded_sheet_fields fresh_sheet_fields)
  then obtain s' where s': "handleCheckAnswers 5 ?s = Inr s'"
    and k: "answerKey s' = map (\<lambda>i. (int i + 1, [''BA'' ! i])) [0..<length ''BA'']"
    and same: "\<forall>k. handleCheckAnswers 5 (?s\<lparr>answerKey := k\<rparr>) = Inr s'"
    by (elim exE conjE)
  have a: "answerKey ?s = [(1, ''A''), (2, ''B'')]" by (simp add: uploaded_sheet_fields)
  have b: "map_sum id answerKey (handleCheckAnswers 5 ?s) = Inr [(1, ''B''), (2, ''A'')]"
    by (simp add: s' k numeral_2_eq_2)
  have c: "handleCheckAnswers 5 ?s = handleCheckAnswers 5 (?s\<lparr>answerKey := []\<rparr>)"
    using same [rule_format, of "[]"] s' by simp
  have d: "handleCheckAnswers 5 (uploaded_sheet\<lparr>manualKeyInput := ''ABC''\<rparr>)
       = Inr (uploaded_sheet\<lparr>manualKeyInput := ''ABC'', checkError := Some (LengthMismatch 3 2)\<rparr>)"
    using manual_key_precedence [of "uploaded_sheet\<lparr>manualKeyInput := ''ABC''\<rparr>" "''ABC''" 5 "[]" "[]",
        THEN conjunct1, rule_format, THEN conjunct2, rule_format, of "[(1, ''A''), (2, ''B'')]"]
    by (simp add: typed_ab uploaded_sheet_fields(1) [symmetric] uploaded_sheet_fields(2))
  have e: "manualKeyInput (parseAnswerKeyFromExcel [[Num 1, Str ''a''], [Num 2, Str ''B'']]
                        (fresh_sheet\<lparr>manualKeyInput := ''ba''\<rparr>)) = []"
    using manual_key_precedence [of "fresh_sheet\<lparr>manualKeyInput := ''ba''\<rparr>" "''BA''" 5
        "[[Num 1, Str ''a''], [Num 2, Str ''B'']]" "[]"]
    by (simp add: excel_two del: excel_rows.simps)
  have f: "manualKeyInput (parseAnswerKeyFromText ''0 A 9: B'' (fresh_sheet\<lparr>manualKeyInput := ''ba''\<rparr>)) = []"
    using manual_key_precedence [of "fresh_sheet\<lparr>manualKeyInput := ''ba''\<rparr>" "''BA''" 5
        "[]" "''0 A 9: B''"]
    by (simp add: text_example)
  show ?thesis
    by (intro conjI) (rule ba a b c typed_ab(2) d e f)+
qed

text \<open>
  C10 as stated fails. With the uploaded key 1:A, 2:B stored and the non-empty text "ABC"
  typed on a sheet of two questions, the check leaves the uploaded key in place: the
  stored key is not discarded and not replaced by the typed one.
\<close>

theorem manual_key_wrong_length_keeps_stored_key:
  "answerKey (uploaded_sheet\<lparr>manualKeyInput := ''ABC''\<rparr>) = [(1, ''A''), (2, ''B'')]
   \<and> manualKeyInput (uploaded_sheet\<lparr>manualKeyInput := ''ABC''\<rparr>) = ''ABC''
   \<and> map_sum id answerKey (handleCheckAnswers 5 (uploaded_sheet\<lparr>manualKeyInput := ''ABC''\<rparr>))
       = Inr [(1, ''A''), (2, ''B'')]
   \<and> map_sum id checkError (handleCheckAnswers 5 (uploaded_sheet\<lparr>manualKeyInput := ''ABC''\<rparr>))
       = Inr (Some (LengthMismatch 3 2))"
proof -
  have "handleCheckAnswers 5 (uploaded_sheet\<lparr>manualKeyInput := ''ABC''\<rparr>)
       = Inr (uploaded_sheet\<lparr>manualKeyInput := ''ABC'', checkError := Some (LengthMismatch 3 2)\<rparr>)"
    using handleCheckAnswers_manual [of "uploaded_sheet\<lparr>manualKeyInput := ''ABC''\<rparr>" "''ABC''" 5]
    by (simp add: typed_ab uploaded_sheet_fields)
  then show ?thesis
    by (simp add: uploaded_sheet_fields)
qed

section \<open>After grading\<close>

text \<open>
  C9, as the script behaves. Take a sheet with its rows, grade it, and let any events
  follow that are neither a reset nor a new generation: clicks on options and on Clear
  buttons, typing in the key field, uploads, confirmations, and further clicks on
  "Finish and Check". They all return, and the responses (which option is checked in each
  row) are still those that were graded. Grading is not barred, though: \<open>gradeSheet\<close>
  run again at a later clock reading returns without an error message, shows a result
  and overwrites the time taken with the time elapsed up to that later reading; the
  responses stay the same through it.
\<close>

theorem responses_frozen_after_grading:
  assumes "length (rows s) = totalQuestions s"
    and "gradeSheet now s = Inr s1"
    and "\<forall>e \<in> set evs. \<not> resets e"
  shows "\<exists>s2. run evs s1 = Inr s2
           \<and> map checked (rows s2) = map checked (rows s)
           \<and> (\<exists>s3. gradeSheet later s2 = Inr s3
                 \<and> checkError s3 = None \<and> isGraded s3 \<and> results s3 \<noteq> None
                 \<and> timeTaken s3 = Some (later - startTime s)
                 \<and> map checked (rows s3) = map checked (rows s))"
proof -
  from gradeSheet_returns [OF assms(1), of now] assms(1,2)
  have s1: "length (rows s1) = totalQuestions s1" "\<forall>r \<in> set (rows s1). disabled r \<and> clearHidden r"
    "map checked (rows s1) = map checked (rows s)" "startTime s1 = startTime s"
    by auto
  from run_locked [OF s1(1,2) assms(3)] obtain s2 where
    s2: "run evs s1 = Inr s2" "length (rows s2) = totalQuestions s2"
      "map checked (rows s2) = map checked (rows s1)" "startTime s2 = startTime s1"
    by blast
  from gradeSheet_returns [OF s2(2), of later] obtain s3 where
    s3: "gradeSheet later s2 = Inr s3" "checkError s3 = None" "isGraded s3" "results s3 \<noteq> None"
      "timeTaken s3 = Some (later - startTime s2)" "map checked (rows s3) = map checked (rows s2)"
    by blast
  show ?thesis
    by (intro exI [of _ s2] exI [of _ s3] conjI) (simp_all add: s1 s2 s3)
qed

text \<open>
  C9 amended, on the marked sheet: after grading at clock reading 5, a click on option B of
  question 1, a click on its Clear button, a newly typed key and a second check leave the
  responses A and none; grading once more at clock reading 12 reports 12 ms.
\<close>

theorem responses_frozen_after_grading_witness:
  "length (rows marked_sheet) = totalQuestions marked_sheet
   \<and> (\<exists>s1 s2. gradeSheet 5 marked_sheet = Inr s1
         \<and> run [SelectOption 1 ''B'', ClickClear 1, TypeManualKey ''ba'', Check 9] s1 = Inr s2
         \<and> map checked (rows s2) = [Some ''A'', None]
         \<and> (\<exists>s3. gradeSheet 12 s2 = Inr s3 \<and> timeTaken s3 = Some 12
               \<and> map checked (rows s3) = [Some ''A'', None]))"
proof -
  let ?evs = "[SelectOption 1 ''B'', ClickClear 1, TypeManualKey ''ba'', Check 9]"
  have h: "length (rows marked_sheet) = totalQuestions marked_sheet"
    by (rule marked_sheet_fields)
  from gradeSheet_returns [OF h, of 5] obtain s1 where g: "gradeSheet 5 marked_sheet = Inr s1"
    by blast
  have ev: "\<forall>e \<in> set ?evs. \<not> resets e" by simp
  from responses_frozen_after_grading [OF h g ev, of 12] obtain s2 s3 where
    r: "run ?evs s1 = Inr s2" "map checked (rows s2) = map checked (rows marked_sheet)"
      "gradeSheet 12 s2 = Inr s3" "timeTaken s3 = Some (12 - startTime marked_sheet)"
      "map checked (rows s3) = map checked (rows marked_sheet)"
    by blast
  have inner: "\<exists>s3. gradeSheet 12 s2 = Inr s3 \<and> timeTaken s3 = Some 12
               \<and> map checked (rows s3) = [Some ''A'', None]"
    by (rule exI [of _ s3]) (simp add: r marked_sheet_fields)
  have s2: "map checked (rows s2) = [Some ''A'', None]"
    by (simp add: r marked_sheet_fields)
  have "\<exists>s1 s2. gradeSheet 5 marked_sheet = Inr s1
         \<and> run ?evs s1 = Inr s2
         \<and> map checked (rows s2) = [Some ''A'', None]
         \<and> (\<exists>s3. gradeSheet 12 s2 = Inr s3 \<and> timeTaken s3 = Some 12
               \<and> map checked (rows s3) = [Some ''A'', None])"
    by (rule exI [of _ s1], rule exI [of _ s2], intro conjI) (rule g r(1) s2 inner)+
  with h show ?thesis by (rule conjI)
qed

text \<open>
  C9 as stated fails. On a sheet of two questions with A marked for question 1 and the
  typed key "ab", the check at clock reading 5 shows 1 correct and 5 ms. A second check
  at clock reading 9, with no reset in between, is not refused (no error message) and is
  not without effect: it overwrites the time taken with 9 ms. With the typed key changed
  to "ba" before the second check, the result shown changes to 0 correct, 1 incorrect.
\<close>

theorem second_check_regrades:
  "map_sum id results (run [SelectOption 1 ''A'', TypeManualKey ''ab'', Check 5] fresh_sheet)
     = Inr (Some \<lparr>correctCount = 1, incorrectCount = 0, unansweredCount = 1,
                  scoreShown = RawCount 1 2\<rparr>)
   \<and> map_sum id timeTaken (run [SelectOption 1 ''A'', TypeManualKey ''ab'', Check 5] fresh_sheet)
     = Inr (Some 5)
   \<and> map_sum id timeTaken
        (run [SelectOption 1 ''A'', TypeManualKey ''ab'', Check 5, Check 9] fresh_sheet)
     = Inr (Some 9)
   \<and> map_sum id checkError
        (run [SelectOption 1 ''A'', TypeManualKey ''ab'', Check 5, Check 9] fresh_sheet)
     = Inr None
   \<and> map_sum id results
        (run [SelectOption 1 ''A'', TypeManualKey ''ab'', Check 5, TypeManualKey ''ba'', Check 9]
           fresh_sheet)
     = Inr (Some \<lparr>correctCount = 0, incorrectCount = 1, unansweredCount = 1,
                  scoreShown = RawCount 0 2\<rparr>)
   \<and> map_sum id checkError
        (run [SelectOption 1 ''A'', TypeManualKey ''ab'', Check 5, TypeManualKey ''ba'', Check 9]
           fresh_sheet)
     = Inr None"
  by (simp add: fresh_sheet_eq handler_defs text_simps)

section \<open>Properties of the timer\<close>

text \<open>
  C8, as the script behaves: \<open>stopTimer\<close> computes the elapsed time as the clock reading
  minus \<open>startTime\<close>, and \<open>startTime\<close> is 0 until \<open>startTimer\<close> first runs. Stopping a timer
  that was never started therefore reports the clock reading itself, not zero.
\<close>

theorem stopTimer_elapsed:
  "timeTaken (stopTimer now s) = Some (now - startTime s)
   \<and> startTime init = 0
   \<and> timeTaken (stopTimer now init) = Some now"
  by (simp add: stopTimer_def init_def)

text \<open>
  C8 as stated fails: in the initial state, with the clock at 1000 ms, \<open>stopTimer\<close>
  reports 1000 ms elapsed. The handlers reach it there: a click on "Finish and Check"
  with no key opens the confirmation, and confirming stops the timer that was never
  started.
\<close>

theorem stopTimer_without_start_not_zero:
  "timeTaken (stopTimer 1000 init) \<noteq> Some 0
   \<and> map_sum id timeTaken (run [Check 1000, ConfirmProceed 1000] init) = Inr (Some 1000)"
  by (simp add: stopTimer_def init_def handleCheckAnswers_def handleConfirmProceed_def
      key_count_def text_simps)

end
